theory Spec2Isabelle
  imports Complex_Main "HOL-Library.Finite_Map" "HOL-Library.Char_ord"
    "HOL-Library.List_Lexorder" "HOL-Library.Word"
begin

section \<open>The dashboard worker (worker-go/main.go)\<close>

text \<open>
  The Go service keeps a registry of websocket connections, watches the report file's
  modification time, pushes the token \<open>reload\<close> to every registered connection when the
  file changes, and serves the stored report on demand. Every function below is the
  translation of the source function of the same name; the package-level variables
  (\<open>clients\<close>) and the state of the connections are one explicit record.
\<close>

subsection \<open>Probe results and \<open>countSeverity\<close>\<close>

text \<open>
  JSON values: the members of an object in the order of the text, a number as its
  literal, a string or a key as the Go string the decoder reads from it (escapes
  resolved, bytes that are not UTF-8 replaced).
\<close>

datatype json =
    JNull
  | JBool bool
  | JNum string
  | JStr string
  | JArr "json list"
  | JObj "(string \<times> json) list"

text \<open>A \<open>float64\<close> is its 64 bits.\<close>

type_synonym float64 = "64 word"

text \<open>
  A slice is nil, or an array and a length: the elements of \<open>Slice a n\<close> are the first
  \<open>n\<close> of \<open>a\<close>, and what \<open>a\<close> holds from \<open>n\<close> on is what longer contents left there
  before the slice was cut. Beyond the end of \<open>a\<close> nothing was ever written: the array
  is zero there, or not allocated yet.
\<close>

datatype 'a slice = NilSlice | Slice "'a list" nat

fun elems :: "'a slice \<Rightarrow> 'a list" where
  "elems NilSlice = []"
| "elems (Slice a n) = take n a"

fun array_of :: "'a slice \<Rightarrow> 'a list" where
  "array_of NilSlice = []"
| "array_of (Slice a n) = a"

text \<open>
  The values an \<open>interface{}\<close> holds after decoding. A map with string keys is the list
  of its entries in the order of the keys, the order in which the encoder writes them;
  a nil map is \<open>None\<close>.
\<close>

datatype any_value =
    ANil
  | ABool bool
  | AFloat float64
  | AString string
  | ASlice "any_value list"
  | AMap "(string \<times> any_value) list"

record ScanResult =
  URL :: string
  Status :: int
  SecurityHeaders :: "(string \<times> any_value) list option"
  Issues :: "string slice"
  Severity :: string
  Error :: string
  ResponseTimeMs :: float64
  Timestamp :: string

text \<open>The zero value of the struct, as \<open>var r ScanResult\<close> gives it.\<close>

definition zero_ScanResult :: ScanResult where
  "zero_ScanResult =
     \<lparr>URL = [], Status = 0, SecurityHeaders = None, Issues = NilSlice, Severity = [],
      Error = [], ResponseTimeMs = 0, Timestamp = []\<rparr>"

text \<open>
  \<open>c := 0; for _, r := range results { if r.Severity == sev { c++ } }; return c\<close>.
  The counter is a Go \<open>int\<close>; it never exceeds \<open>len(results)\<close>, itself an \<open>int\<close>, so
  no wrap-around can occur and the model counts in \<open>int\<close>.
\<close>

fun countSeverity_loop :: "ScanResult list \<Rightarrow> string \<Rightarrow> int \<Rightarrow> int" where
  "countSeverity_loop [] sev c = c"
| "countSeverity_loop (r # results) sev c =
     countSeverity_loop results sev (if Severity r = sev then c + 1 else c)"

definition countSeverity :: "ScanResult list \<Rightarrow> string \<Rightarrow> int" where
  "countSeverity results sev = countSeverity_loop results sev 0"

subsection \<open>Connections and the client registry\<close>

text \<open>
  A \<open>*websocket.Conn\<close> is a pointer: its identity is a number. What the program can
  observe of a connection is kept in the state: whether \<open>Close\<close> has been called on it,
  whether its transport is broken (the peer is gone), and the text messages that
  reached the peer.
\<close>

type_synonym conn = nat

datatype log_entry =
    LogConnected nat
  | LogDisconnected nat
  | LogWriteError
  | LogReportUpdated
  | LogUpgrade

record world =
  clients :: "(conn, bool) fmap"
  closed :: "conn set"
  broken :: "conn set"
  inbox :: "conn \<Rightarrow> string list"
  logs :: "log_entry list"

text \<open>\<open>len(clients)\<close>, the count the log lines report.\<close>

definition len_clients :: "world \<Rightarrow> nat" where
  "len_clients s = fcard (fmdom (clients s))"

text \<open>
  \<open>c.WriteMessage(websocket.TextMessage, []byte(msg))\<close>: an error (\<open>True\<close>) on a closed
  connection or a broken transport, otherwise the message reaches the peer.
\<close>

definition send_fails :: "world \<Rightarrow> conn \<Rightarrow> bool" where
  "send_fails s c = (c \<in> closed s \<or> c \<in> broken s)"

definition WriteMessage :: "conn \<Rightarrow> string \<Rightarrow> world \<Rightarrow> bool \<times> world" where
  "WriteMessage c msg s =
     (if send_fails s c then (True, s)
      else (False, s\<lparr>inbox := (inbox s)(c := inbox s c @ [msg])\<rparr>))"

definition Close :: "conn \<Rightarrow> world \<Rightarrow> world" where
  "Close c s = s\<lparr>closed := insert c (closed s)\<rparr>"

definition log_Print :: "log_entry \<Rightarrow> world \<Rightarrow> world" where
  "log_Print e s = s\<lparr>logs := logs s @ [e]\<rparr>"

definition addClient :: "conn \<Rightarrow> world \<Rightarrow> world" where
  "addClient c s =
     (let s1 = s\<lparr>clients := fmupd c True (clients s)\<rparr>
      in log_Print (LogConnected (len_clients s1)) s1)"

definition removeClient :: "conn \<Rightarrow> world \<Rightarrow> world" where
  "removeClient c s =
     (let s1 = s\<lparr>clients := fmdrop c (clients s)\<rparr>;
          s2 = Close c s1
      in log_Print (LogDisconnected (len_clients s2)) s2)"

text \<open>
  \<open>for c := range clients\<close>: Go visits the keys in an unspecified order, each key once,
  and does not produce a key deleted before it is reached. The order of one pass is the
  list \<open>order\<close>, an enumeration of the keys (\<open>range_order\<close>); the body is the source's.
\<close>

definition range_order :: "conn list \<Rightarrow> world \<Rightarrow> bool" where
  "range_order order s = (distinct order \<and> fset_of_list order = fmdom (clients s))"

fun broadcast_range :: "string \<Rightarrow> conn list \<Rightarrow> world \<Rightarrow> world" where
  "broadcast_range msg [] s = s"
| "broadcast_range msg (c # cs) s =
     (if c |\<in>| fmdom (clients s) then
        (case WriteMessage c msg s of
           (True, s1) \<Rightarrow>
             broadcast_range msg cs
               (Close c ((log_Print LogWriteError s1)\<lparr>clients := fmdrop c (clients s1)\<rparr>))
         | (False, s1) \<Rightarrow> broadcast_range msg cs s1)
      else broadcast_range msg cs s)"

definition broadcast :: "string \<Rightarrow> conn list \<Rightarrow> world \<Rightarrow> world" where
  "broadcast msg order s = broadcast_range msg order s"

text \<open>
  Scenario D of the specification: three registered clients, the transport of client 2
  is broken.
\<close>

definition scenario_D :: world where
  "scenario_D =
     \<lparr>clients = fmupd 3 True (fmupd 2 True (fmupd 1 True fmempty)),
      closed = {}, broken = {2}, inbox = (\<lambda>_. []), logs = []\<rparr>"

subsection \<open>Time, the file system and the change watcher\<close>

text \<open>
  A \<open>time.Time\<close> without monotonic reading (file times have none, nor has the zero
  value): seconds since January 1 of year 1, 00:00:00 UTC, an \<open>int64\<close>, and nanoseconds
  within the second. \<open>t.After(u)\<close> compares the seconds, then the nanoseconds.
\<close>

record Time =
  sec :: int
  nsec :: int

definition zero_Time :: Time where
  "zero_Time = \<lparr>sec = 0, nsec = 0\<rparr>"

definition After :: "Time \<Rightarrow> Time \<Rightarrow> bool" where
  "After t u = (sec t > sec u \<or> sec t = sec u \<and> nsec t > nsec u)"

text \<open>
  The arithmetic of \<open>int64\<close>: a sum or difference wraps around, a quotient is cut
  towards zero.
\<close>

definition int64 :: "int \<Rightarrow> int" where
  "int64 x = (x + 2 ^ 63) mod 2 ^ 64 - 2 ^ 63"

definition quot :: "int \<Rightarrow> int \<Rightarrow> int" where
  "quot a b = (if 0 \<le> a then a div b else - ((- a) div b))"

text \<open>
  \<open>time.Unix(sec, nsec)\<close>: nanoseconds outside \<open>[0, 10^9)\<close> are carried into the
  seconds, and the seconds are counted from year 1 instead of 1970, 62135596800 seconds
  later. Both additions are \<open>int64\<close> additions.
\<close>

definition unixToInternal :: int where
  "unixToInternal = 62135596800"

definition unixTime :: "int \<Rightarrow> int \<Rightarrow> Time" where
  "unixTime s n = \<lparr>sec = int64 (s + unixToInternal), nsec = n\<rparr>"

definition Unix :: "int \<Rightarrow> int \<Rightarrow> Time" where
  "Unix s n =
     (if n < 0 \<or> 10 ^ 9 \<le> n then
        (let q = quot n (10 ^ 9);
             s1 = int64 (s + q);
             n1 = n - q * 10 ^ 9
         in if n1 < 0 then unixTime (int64 (s1 - 1)) (n1 + 10 ^ 9) else unixTime s1 n1)
      else unixTime s n)"

text \<open>
  The bytes of a file, as \<open>encoding/json\<close>'s scanner sees them: not a JSON text, or the
  text of one JSON value. What is at a path: its bytes, the modification time of its
  inode (the \<open>int64\<close> seconds and nanoseconds since the Unix epoch of its \<open>timespec\<close>),
  and the errors of the system calls on it, if they fail: \<open>stat\<close> (no permission to
  search a directory of the path, an I/O error), and opening and reading (no permission
  to read, a directory, an I/O error; with the operation that fails). The file system
  maps a path to what is there.
\<close>

datatype bytes = NotJSON | JSONText json

datatype errno = ENOENT | EACCES | EISDIR | EIO

record os_file =
  data :: bytes
  tv_sec :: int
  tv_nsec :: int
  stat_errno :: "errno option"
  read_errno :: "(string \<times> errno) option"

type_synonym filesys = "string \<rightharpoonup> os_file"

text \<open>
  The errors of the program: an \<open>*fs.PathError\<close> (operation, path, error number), and
  the decoder's \<open>*json.SyntaxError\<close> and \<open>*json.UnmarshalTypeError\<close>, the latter with
  its fields \<open>Value\<close> and \<open>Type\<close>.
\<close>

datatype error =
    PathError string string errno
  | SyntaxError
  | UnmarshalTypeError string string

text \<open>\<open>os.Stat(path)\<close>, of which the program reads \<open>ModTime()\<close> only.\<close>

definition os_Stat :: "filesys \<Rightarrow> string \<Rightarrow> error + Time" where
  "os_Stat fs path =
     (case fs path of
        None \<Rightarrow> Inl (PathError ''stat'' path ENOENT)
      | Some f \<Rightarrow>
          (case stat_errno f of
             Some e \<Rightarrow> Inl (PathError ''stat'' path e)
           | None \<Rightarrow> Inr (Unix (tv_sec f) (tv_nsec f))))"

text \<open>
  One iteration of the loop of \<open>watchReport\<close> (the sleep apart): \<open>last_seen\<close> is the loop's
  local variable \<open>last\<close>, \<open>order\<close> the key order of the broadcast's \<open>range\<close>.
\<close>

definition watchReport_iter ::
  "filesys \<Rightarrow> string \<Rightarrow> conn list \<Rightarrow> Time \<times> world \<Rightarrow> Time \<times> world" where
  "watchReport_iter fs path order st =
     (case st of (last_seen, s) \<Rightarrow>
        (case os_Stat fs path of
           Inl err \<Rightarrow> (last_seen, s)
         | Inr modTime \<Rightarrow>
             if After modTime last_seen
             then (modTime, broadcast ''reload'' order (log_Print LogReportUpdated s))
             else (last_seen, s)))"

text \<open>The number of change events signalled so far: the watcher logs each one.\<close>

definition change_events :: "world \<Rightarrow> nat" where
  "change_events s = length (filter (\<lambda>e. e = LogReportUpdated) (logs s))"

subsection \<open>The server: \<open>main\<close> and its goroutines\<close>

text \<open>
  The state of the process: the registry and the connections, the handler goroutine of
  each connection accepted at \<open>/ws\<close> (in its read loop, or past a failed read and about
  to call \<open>removeClient\<close>), the next connection to be allocated, the watcher's \<open>last\<close>,
  and the file system. \<open>addClient\<close>, \<open>removeClient\<close> and \<open>broadcast\<close> hold \<open>clientsMu\<close>
  from their first to their last statement, so each is one step.
\<close>

datatype phase = Reading | Removing

record server =
  w :: world
  handlers :: "conn \<rightharpoonup> phase"
  next_conn :: conn
  last_seen :: Time
  files :: filesys
  reportPath :: string

datatype event =
    Upgrade
  | UpgradeFails
  | ReadMessage conn
  | ReadError conn
  | RemoveClient conn
  | Poll "conn list"
  | Drop conn
  | Publish os_file
  | Unlink

text \<open>
  The state when \<open>main\<close> has set up the server: \<open>reportPath\<close> is the environment's
  \<open>REPORT_PATH\<close>, or the default when that is empty; the registry is empty and the
  watcher has the zero time as \<open>last\<close>.
\<close>

definition report_path :: "string \<Rightarrow> string" where
  "report_path env = (if env = [] then ''./reports/report.json'' else env)"

definition main_init :: "string \<Rightarrow> filesys \<Rightarrow> server" where
  "main_init env fs =
     \<lparr>w = \<lparr>clients = fmempty, closed = {}, broken = {}, inbox = (\<lambda>_. []), logs = []\<rparr>,
      handlers = Map.empty, next_conn = 0, last_seen = zero_Time, files = fs,
      reportPath = report_path env\<rparr>"

text \<open>
  One step. \<open>Upgrade\<close>: the handshake of a request to \<open>/ws\<close> succeeds, a new connection
  is allocated and \<open>addClient\<close> registers it. \<open>ReadMessage c\<close>: the read loop of \<open>c\<close>
  reads a message and drops it. \<open>ReadError c\<close>: \<open>conn.ReadMessage()\<close> returns an error.
  \<open>RemoveClient c\<close>: the handler calls \<open>removeClient(conn)\<close> and leaves the loop.
  \<open>Poll order\<close>: one iteration of \<open>watchReport\<close>, whose loop never returns: an
  execution holds one such event for each iteration made so far. \<open>Drop\<close>, \<open>Publish\<close>
  and \<open>Unlink\<close> are the environment's: a peer goes away, the scanner replaces the report
  file, the file is removed. An event that cannot happen in the state gives \<open>None\<close>.
\<close>

definition step :: "server \<Rightarrow> event \<Rightarrow> server option" where
  "step s e =
     (case e of
        Upgrade \<Rightarrow>
          Some (s\<lparr>w := addClient (next_conn s) (w s),
                  handlers := (handlers s)(next_conn s \<mapsto> Reading),
                  next_conn := Suc (next_conn s)\<rparr>)
      | UpgradeFails \<Rightarrow> Some (s\<lparr>w := log_Print LogUpgrade (w s)\<rparr>)
      | ReadMessage c \<Rightarrow>
          if handlers s c = Some Reading \<and> c \<notin> closed (w s) then Some s else None
      | ReadError c \<Rightarrow>
          if handlers s c = Some Reading
          then Some (s\<lparr>handlers := (handlers s)(c \<mapsto> Removing)\<rparr>) else None
      | RemoveClient c \<Rightarrow>
          if handlers s c = Some Removing
          then Some (s\<lparr>w := removeClient c (w s), handlers := (handlers s)(c := None)\<rparr>)
          else None
      | Poll order \<Rightarrow>
          if range_order order (w s)
          then (case watchReport_iter (files s) (reportPath s) order (last_seen s, w s) of
                  (l, w') \<Rightarrow> Some (s\<lparr>w := w', last_seen := l\<rparr>))
          else None
      | Drop c \<Rightarrow> Some (s\<lparr>w := (w s)\<lparr>broken := insert c (broken (w s))\<rparr>\<rparr>)
      | Publish f \<Rightarrow> Some (s\<lparr>files := (files s)(reportPath s \<mapsto> f)\<rparr>)
      | Unlink \<Rightarrow> Some (s\<lparr>files := (files s)(reportPath s := None)\<rparr>))"

fun run :: "server \<Rightarrow> event list \<Rightarrow> server option" where
  "run s [] = Some s"
| "run s (e # es) = (case step s e of None \<Rightarrow> None | Some s' \<Rightarrow> run s' es)"

text \<open>A report file written on 2023-11-14 (Unix time 1700000000), holding \<open>{}\<close>.\<close>

definition report_file :: os_file where
  "report_file =
     \<lparr>data = JSONText (JObj []), tv_sec = 1700000000, tv_nsec = 0, stat_errno = None,
      read_errno = None\<rparr>"

definition sample_fs :: filesys where
  "sample_fs = [''./reports/report.json'' \<mapsto> report_file]"

text \<open>
  The same file with other dates: the zero time itself (January 1 of year 1, 62135596800
  seconds before the Unix epoch), and the first second whose count from year 1 is
  beyond \<open>int64\<close>.
\<close>

definition dated :: "int \<Rightarrow> filesys" where
  "dated s = [''./reports/report.json'' \<mapsto> report_file\<lparr>tv_sec := s\<rparr>]"

text \<open>The events of the watcher and of the scanner, as opposed to those of the gateway.\<close>

fun watcher_or_scanner :: "event \<Rightarrow> bool" where
  "watcher_or_scanner (Poll order) = True"
| "watcher_or_scanner (Publish f) = True"
| "watcher_or_scanner Unlink = True"
| "watcher_or_scanner e = False"

text \<open>
  Two invariants of the executions. Connections are allocated in sequence: every
  registered or handled one is older than the next to be allocated.
\<close>

definition allocated :: "server \<Rightarrow> bool" where
  "allocated s = (\<forall>c. c |\<in>| fmdom (clients (w s)) \<or> handlers s c \<noteq> None \<longrightarrow> c < next_conn s)"

text \<open>A connection that is gone: allocated, closed, out of the registry, with no handler.\<close>

definition gone :: "conn \<Rightarrow> server \<Rightarrow> bool" where
  "gone c s = (c < next_conn s \<and> c \<in> closed (w s) \<and> c |\<notin>| fmdom (clients (w s))
     \<and> handlers s c = None)"

subsection \<open>Reports and their JSON encoding\<close>

record Report =
  ScanID :: string
  Timestamp :: string
  DurationSeconds :: float64
  TotalTargets :: int
  Results :: "ScanResult slice"

definition zero_Report :: Report where
  "zero_Report =
     \<lparr>ScanID = [], Timestamp = [], DurationSeconds = 0, TotalTargets = 0,
      Results = NilSlice\<rparr>"

text \<open>
  \<open>encoding/json\<close> matches an object key with a field's name up to Unicode simple case
  folding. The names here are ASCII, and the characters outside ASCII that fold to an
  ASCII letter are the long s (bytes C5 BF) and the Kelvin sign (bytes E2 84 AA).
\<close>

definition upper :: "char \<Rightarrow> char" where
  "upper c = (if CHR ''a'' \<le> c \<and> c \<le> CHR ''z'' then char_of (of_char c - (32::nat)) else c)"

fun foldName :: "string \<Rightarrow> string" where
  "foldName [] = []"
| "foldName [c] = [upper c]"
| "foldName (c # d # cs) =
     (if c = CHR 0xC5 \<and> d = CHR 0xBF then CHR ''S'' # foldName cs
      else if c = CHR 0xE2 \<and> d = CHR 0x84 \<and> take 1 cs = [CHR 0xAA]
        then CHR ''K'' # foldName (tl cs)
      else upper c # foldName (d # cs))"

definition matches :: "string \<Rightarrow> string \<Rightarrow> bool" where
  "matches key name = (foldName key = foldName name)"

text \<open>
  Numbers. \<open>strconv.ParseInt(s, 10, 64)\<close> reads an optional sign and decimal digits and
  fails on anything else and on a value outside \<open>int64\<close>; the encoder writes an \<open>int\<close> in
  decimal digits.
\<close>

definition digit :: "char \<Rightarrow> nat option" where
  "digit c = (if CHR ''0'' \<le> c \<and> c \<le> CHR ''9'' then Some (of_char c - 48) else None)"

fun digits_value :: "string \<Rightarrow> nat \<Rightarrow> nat option" where
  "digits_value [] acc = Some acc"
| "digits_value (c # cs) acc =
     (case digit c of None \<Rightarrow> None | Some d \<Rightarrow> digits_value cs (10 * acc + d))"

definition ParseInt :: "string \<Rightarrow> int option" where
  "ParseInt s =
     (let neg = (take 1 s = ''-'');
          ds = (if take 1 s = ''-'' \<or> take 1 s = ''+'' then drop 1 s else s)
      in if ds = [] then None
         else (case digits_value ds 0 of
                 None \<Rightarrow> None
               | Some n \<Rightarrow>
                   (let v = (if neg then - int n else int n)
                    in if - (2 ^ 63) \<le> v \<and> v < 2 ^ 63 then Some v else None)))"

fun digits_of :: "nat \<Rightarrow> string" where
  "digits_of n =
     (if n < 10 then [char_of (48 + n)]
      else digits_of (n div 10) @ [char_of (48 + n mod 10)])"

declare digits_of.simps [simp del]

definition FormatInt :: "int \<Rightarrow> string" where
  "FormatInt i = (if i < 0 then CHR ''-'' # digits_of (nat (- i)) else digits_of (nat i))"

text \<open>
  The conversions between a number literal and a \<open>float64\<close> are the library's
  (\<open>strconv\<close>, correctly rounded, and the encoder's shortest text that reads back as the
  same bits). They are parameters of the model: \<open>ParseFloat\<close>, with \<open>None\<close> for a literal
  out of range, and \<open>FormatFloat\<close>, the text the encoder writes.
\<close>

record floats =
  ParseFloat :: "string \<Rightarrow> float64 option"
  FormatFloat :: "float64 \<Rightarrow> string"

text \<open>
  Decoding a JSON value into a Go value. Each function takes the current value of the
  target and gives its new value and the error the decoder would save: \<open>null\<close> leaves a
  scalar as it is and sets a slice or a map to nil; a value of the wrong kind, or a
  number that does not fit, leaves the target as it is and is an \<open>UnmarshalTypeError\<close>,
  with the kind of the JSON value (and the literal of a number that does not fit) and
  the Go type. The decoder carries on after such an error and reports the earliest one.
\<close>

definition json_kind :: "json \<Rightarrow> string" where
  "json_kind j =
     (case j of JNull \<Rightarrow> ''null'' | JBool b \<Rightarrow> ''bool'' | JNum s \<Rightarrow> ''number''
      | JStr s \<Rightarrow> ''string'' | JArr xs \<Rightarrow> ''array'' | JObj kvs \<Rightarrow> ''object'')"

definition first_err :: "error option \<Rightarrow> error option \<Rightarrow> error option" where
  "first_err e e' = (case e of None \<Rightarrow> e' | Some x \<Rightarrow> Some x)"

fun earliest :: "error option list \<Rightarrow> error option" where
  "earliest [] = None"
| "earliest (e # es) = first_err e (earliest es)"

definition decode_string :: "string \<Rightarrow> json \<Rightarrow> string \<times> error option" where
  "decode_string cur j =
     (case j of
        JNull \<Rightarrow> (cur, None)
      | JStr s \<Rightarrow> (s, None)
      | _ \<Rightarrow> (cur, Some (UnmarshalTypeError (json_kind j) ''string'')))"

text \<open>Go's \<open>int\<close> has 64 bits on the platforms the service is built for.\<close>

definition decode_int :: "int \<Rightarrow> json \<Rightarrow> int \<times> error option" where
  "decode_int cur j =
     (case j of
        JNull \<Rightarrow> (cur, None)
      | JNum s \<Rightarrow>
          (case ParseInt s of
             Some n \<Rightarrow> (n, None)
           | None \<Rightarrow> (cur, Some (UnmarshalTypeError (''number '' @ s) ''int'')))
      | _ \<Rightarrow> (cur, Some (UnmarshalTypeError (json_kind j) ''int'')))"

definition decode_float64 :: "floats \<Rightarrow> float64 \<Rightarrow> json \<Rightarrow> float64 \<times> error option" where
  "decode_float64 fl cur j =
     (case j of
        JNull \<Rightarrow> (cur, None)
      | JNum s \<Rightarrow>
          (case ParseFloat fl s of
             Some x \<Rightarrow> (x, None)
           | None \<Rightarrow> (cur, Some (UnmarshalTypeError (''number '' @ s) ''float64'')))
      | _ \<Rightarrow> (cur, Some (UnmarshalTypeError (json_kind j) ''float64'')))"

text \<open>
  Into a slice. The element of index \<open>i\<close> of the array is decoded into the element of
  index \<open>i\<close> of the slice's array, with what that holds: the element of the slice, what
  a longer content left there, or zero beyond the array's end. Then the slice is cut to
  the number of elements read; an empty array gives a new empty slice.
\<close>

fun decode_elems ::
  "('a \<Rightarrow> json \<Rightarrow> 'a \<times> error option) \<Rightarrow> 'a \<Rightarrow> 'a list \<Rightarrow> json list \<Rightarrow>
   ('a \<times> error option) list" where
  "decode_elems dec z a [] = []"
| "decode_elems dec z a (x # xs) =
     dec (case a of [] \<Rightarrow> z | y # ys \<Rightarrow> y) x # decode_elems dec z (tl a) xs"

definition decode_slice ::
  "('a \<Rightarrow> json \<Rightarrow> 'a \<times> error option) \<Rightarrow> 'a \<Rightarrow> string \<Rightarrow> 'a slice \<Rightarrow> json \<Rightarrow>
   'a slice \<times> error option" where
  "decode_slice dec z ty cur j =
     (case j of
        JNull \<Rightarrow> (NilSlice, None)
      | JArr xs \<Rightarrow>
          (let rs = decode_elems dec z (array_of cur) xs
           in (if xs = [] then Slice [] 0
               else Slice (map fst rs @ drop (length xs) (array_of cur)) (length xs),
               earliest (map snd rs)))
      | _ \<Rightarrow> (cur, Some (UnmarshalTypeError (json_kind j) ty)))"

definition decode_strings :: "string slice \<Rightarrow> json \<Rightarrow> string slice \<times> error option" where
  "decode_strings cur j = decode_slice decode_string [] ''[]string'' cur j"

text \<open>
  Into an \<open>interface{}\<close>: a number becomes a \<open>float64\<close> (nil, with an error, when it is
  out of range), an array a slice, an object a map, where \<open>m[k] = v\<close> is
  \<open>assign k v m\<close> and a later member replaces an earlier one of the same key.
\<close>

fun assign :: "string \<Rightarrow> 'v \<Rightarrow> (string \<times> 'v) list \<Rightarrow> (string \<times> 'v) list" where
  "assign k v [] = [(k, v)]"
| "assign k v (p # ps) =
     (if k = fst p then (k, v) # ps
      else if k < fst p then (k, v) # p # ps
      else p # assign k v ps)"

fun any_of :: "floats \<Rightarrow> json \<Rightarrow> any_value" where
  "any_of fl JNull = ANil"
| "any_of fl (JBool b) = ABool b"
| "any_of fl (JNum s) = (case ParseFloat fl s of None \<Rightarrow> ANil | Some x \<Rightarrow> AFloat x)"
| "any_of fl (JStr s) = AString s"
| "any_of fl (JArr xs) = ASlice (map (any_of fl) xs)"
| "any_of fl (JObj kvs) = AMap (foldl (\<lambda>m kv. assign (fst kv) (any_of fl (snd kv)) m) [] kvs)"

fun any_err :: "floats \<Rightarrow> json \<Rightarrow> error option" where
  "any_err fl (JNum s) =
     (case ParseFloat fl s of
        None \<Rightarrow> Some (UnmarshalTypeError (''number '' @ s) ''float64'')
      | Some x \<Rightarrow> None)"
| "any_err fl (JArr xs) = earliest (map (any_err fl) xs)"
| "any_err fl (JObj kvs) = earliest (map (\<lambda>kv. any_err fl (snd kv)) kvs)"
| "any_err fl j = None"

text \<open>
  Into a \<open>map[string]interface{}\<close>: the members are stored one after the other into the
  map (a new one if it was nil).
\<close>

definition decode_map ::
  "floats \<Rightarrow> (string \<times> any_value) list option \<Rightarrow> json \<Rightarrow>
   (string \<times> any_value) list option \<times> error option" where
  "decode_map fl cur j =
     (case j of
        JNull \<Rightarrow> (None, None)
      | JObj kvs \<Rightarrow>
          (Some (foldl (\<lambda>m kv. assign (fst kv) (any_of fl (snd kv)) m)
                   (case cur of None \<Rightarrow> [] | Some m \<Rightarrow> m) kvs),
           earliest (map (\<lambda>kv. any_err fl (snd kv)) kvs))
      | _ \<Rightarrow> (cur, Some (UnmarshalTypeError (json_kind j) ''map[string]interface {}'')))"

text \<open>
  Into a struct: the members are taken in document order; a key that matches a field's
  name is decoded into the field, any other key is skipped.
\<close>

definition set_ScanResult_field ::
  "floats \<Rightarrow> string \<Rightarrow> json \<Rightarrow> ScanResult \<Rightarrow> ScanResult \<times> error option" where
  "set_ScanResult_field fl key v r =
     (if matches key ''url'' then
        (case decode_string (URL r) v of (x, e) \<Rightarrow> (r\<lparr>URL := x\<rparr>, e))
      else if matches key ''status'' then
        (case decode_int (Status r) v of (x, e) \<Rightarrow> (r\<lparr>Status := x\<rparr>, e))
      else if matches key ''security_headers'' then
        (case decode_map fl (SecurityHeaders r) v of (x, e) \<Rightarrow> (r\<lparr>SecurityHeaders := x\<rparr>, e))
      else if matches key ''issues'' then
        (case decode_strings (Issues r) v of (x, e) \<Rightarrow> (r\<lparr>Issues := x\<rparr>, e))
      else if matches key ''severity'' then
        (case decode_string (Severity r) v of (x, e) \<Rightarrow> (r\<lparr>Severity := x\<rparr>, e))
      else if matches key ''error'' then
        (case decode_string (Error r) v of (x, e) \<Rightarrow> (r\<lparr>Error := x\<rparr>, e))
      else if matches key ''response_time_ms'' then
        (case decode_float64 fl (ResponseTimeMs r) v of
           (x, e) \<Rightarrow> (r\<lparr>ResponseTimeMs := x\<rparr>, e))
      else if matches key ''timestamp'' then
        (case decode_string (ScanResult.Timestamp r) v of
           (x, e) \<Rightarrow> (r\<lparr>ScanResult.Timestamp := x\<rparr>, e))
      else (r, None))"

fun decode_members ::
  "(string \<Rightarrow> json \<Rightarrow> 'a \<Rightarrow> 'a \<times> error option) \<Rightarrow> (string \<times> json) list \<Rightarrow>
   'a \<times> error option \<Rightarrow> 'a \<times> error option" where
  "decode_members setf [] acc = acc"
| "decode_members setf (kv # kvs) acc =
     (case setf (fst kv) (snd kv) (fst acc) of
        (r, e) \<Rightarrow> decode_members setf kvs (r, first_err (snd acc) e))"

definition decode_ScanResult ::
  "floats \<Rightarrow> ScanResult \<Rightarrow> json \<Rightarrow> ScanResult \<times> error option" where
  "decode_ScanResult fl cur j =
     (case j of
        JNull \<Rightarrow> (cur, None)
      | JObj kvs \<Rightarrow> decode_members (set_ScanResult_field fl) kvs (cur, None)
      | _ \<Rightarrow> (cur, Some (UnmarshalTypeError (json_kind j) ''main.ScanResult'')))"

definition decode_results ::
  "floats \<Rightarrow> ScanResult slice \<Rightarrow> json \<Rightarrow> ScanResult slice \<times> error option" where
  "decode_results fl cur j =
     decode_slice (decode_ScanResult fl) zero_ScanResult ''[]main.ScanResult'' cur j"

definition set_Report_field ::
  "floats \<Rightarrow> string \<Rightarrow> json \<Rightarrow> Report \<Rightarrow> Report \<times> error option" where
  "set_Report_field fl key v r =
     (if matches key ''scan_id'' then
        (case decode_string (ScanID r) v of (x, e) \<Rightarrow> (r\<lparr>ScanID := x\<rparr>, e))
      else if matches key ''timestamp'' then
        (case decode_string (Report.Timestamp r) v of
           (x, e) \<Rightarrow> (r\<lparr>Report.Timestamp := x\<rparr>, e))
      else if matches key ''duration_seconds'' then
        (case decode_float64 fl (DurationSeconds r) v of
           (x, e) \<Rightarrow> (r\<lparr>DurationSeconds := x\<rparr>, e))
      else if matches key ''total_targets'' then
        (case decode_int (TotalTargets r) v of (x, e) \<Rightarrow> (r\<lparr>TotalTargets := x\<rparr>, e))
      else if matches key ''results'' then
        (case decode_results fl (Results r) v of (x, e) \<Rightarrow> (r\<lparr>Results := x\<rparr>, e))
      else (r, None))"

definition decode_Report :: "floats \<Rightarrow> Report \<Rightarrow> json \<Rightarrow> Report \<times> error option" where
  "decode_Report fl cur j =
     (case j of
        JNull \<Rightarrow> (cur, None)
      | JObj kvs \<Rightarrow> decode_members (set_Report_field fl) kvs (cur, None)
      | _ \<Rightarrow> (cur, Some (UnmarshalTypeError (json_kind j) ''main.Report'')))"

text \<open>
  \<open>json.Unmarshal(b, &report)\<close>: the value of \<open>report\<close> afterwards, filled as far as
  the decoder got, and the error.
\<close>

definition json_Unmarshal :: "floats \<Rightarrow> bytes \<Rightarrow> Report \<Rightarrow> Report \<times> error option" where
  "json_Unmarshal fl b report =
     (case b of
        NotJSON \<Rightarrow> (report, Some SyntaxError)
      | JSONText j \<Rightarrow> decode_Report fl report j)"

text \<open>
  Encoding: every field of a struct is written, under the name of its tag, in the order
  of the declaration (no field has \<open>omitempty\<close>); a nil slice or map is \<open>null\<close>.
\<close>

fun encode_any :: "floats \<Rightarrow> any_value \<Rightarrow> json" where
  "encode_any fl ANil = JNull"
| "encode_any fl (ABool b) = JBool b"
| "encode_any fl (AFloat x) = JNum (FormatFloat fl x)"
| "encode_any fl (AString s) = JStr s"
| "encode_any fl (ASlice xs) = JArr (map (encode_any fl) xs)"
| "encode_any fl (AMap m) = JObj (map (\<lambda>kv. (fst kv, encode_any fl (snd kv))) m)"

fun encode_slice :: "('a \<Rightarrow> json) \<Rightarrow> 'a slice \<Rightarrow> json" where
  "encode_slice f NilSlice = JNull"
| "encode_slice f (Slice a n) = JArr (map f (take n a))"

definition encode_ScanResult :: "floats \<Rightarrow> ScanResult \<Rightarrow> json" where
  "encode_ScanResult fl r =
     JObj [(''url'', JStr (URL r)),
           (''status'', JNum (FormatInt (Status r))),
           (''security_headers'',
              case SecurityHeaders r of
                None \<Rightarrow> JNull
              | Some m \<Rightarrow> JObj (map (\<lambda>kv. (fst kv, encode_any fl (snd kv))) m)),
           (''issues'', encode_slice JStr (Issues r)),
           (''severity'', JStr (Severity r)),
           (''error'', JStr (Error r)),
           (''response_time_ms'', JNum (FormatFloat fl (ResponseTimeMs r))),
           (''timestamp'', JStr (ScanResult.Timestamp r))]"

definition encode_Report :: "floats \<Rightarrow> Report \<Rightarrow> json" where
  "encode_Report fl r =
     JObj [(''scan_id'', JStr (ScanID r)),
           (''timestamp'', JStr (Report.Timestamp r)),
           (''duration_seconds'', JNum (FormatFloat fl (DurationSeconds r))),
           (''total_targets'', JNum (FormatInt (TotalTargets r))),
           (''results'', encode_slice (encode_ScanResult fl) (Results r))]"

text \<open>The member of an object under a key, if the value is an object that has one.\<close>

definition member :: "json \<Rightarrow> string \<Rightarrow> json option" where
  "member j k = (case j of JObj kvs \<Rightarrow> map_of kvs k | _ \<Rightarrow> None)"

subsection \<open>\<open>loadReport\<close> and the handler of \<open>/api/report\<close>\<close>

text \<open>
  \<open>os.ReadFile(path)\<close>: the bytes of the file at the path, or the error of opening or
  reading it.
\<close>

definition os_ReadFile :: "filesys \<Rightarrow> string \<Rightarrow> error + bytes" where
  "os_ReadFile fs path =
     (case fs path of
        None \<Rightarrow> Inl (PathError ''open'' path ENOENT)
      | Some f \<Rightarrow>
          (case read_errno f of
             Some (op, e) \<Rightarrow> Inl (PathError op path e)
           | None \<Rightarrow> Inr (data f)))"

text \<open>The two results of \<open>loadReport\<close>: the pointer (nil is \<open>None\<close>) and the error.\<close>

definition loadReport :: "floats \<Rightarrow> filesys \<Rightarrow> string \<Rightarrow> Report option \<times> error option" where
  "loadReport fl fs path =
     (case os_ReadFile fs path of
        Inl err \<Rightarrow> (None, Some err)
      | Inr b \<Rightarrow>
          (case json_Unmarshal fl b zero_Report of
             (report, Some err) \<Rightarrow> (None, Some err)
           | (report, None) \<Rightarrow> (Some report, None)))"

text \<open>
  What the handler writes: \<open>http.Error(w, err.Error(), 500)\<close> sends the error's text as
  plain text, the encoder sends the JSON text of the report (of \<open>null\<close> for a nil
  pointer).
\<close>

datatype body = Text error | JSON json

record response =
  code :: nat
  contentType :: string
  body :: body

definition api_report :: "floats \<Rightarrow> filesys \<Rightarrow> string \<Rightarrow> response" where
  "api_report fl fs path =
     (case loadReport fl fs path of
        (report, Some err) \<Rightarrow>
          \<lparr>code = 500, contentType = ''text/plain; charset=utf-8'', body = Text err\<rparr>
      | (report, None) \<Rightarrow>
          \<lparr>code = 200, contentType = ''application/json'',
           body = JSON (case report of None \<Rightarrow> JNull | Some r \<Rightarrow> encode_Report fl r)\<rparr>)"

text \<open>
  The examples. The library's conversions at the two numbers the examples hold: 0, and
  1.5, whose bits are 3FF8000000000000. A stored report with one probe that had a
  transport failure (its status is \<open>null\<close>). The file system that holds given bytes at
  the default path, and the one where they are there but may not be read. A report whose
  \<open>total_targets\<close> is a string, and one that has the member \<open>results\<close> twice.
\<close>

definition strconv_at_examples :: floats where
  "strconv_at_examples =
     \<lparr>ParseFloat =
        (\<lambda>s. if s = ''0'' then Some 0
             else if s = ''1.5'' then Some 0x3FF8000000000000
             else None),
      FormatFloat =
        (\<lambda>x. if x = 0 then ''0''
             else if x = 0x3FF8000000000000 then ''1.5''
             else [])\<rparr>"

definition failed_probe :: json where
  "failed_probe =
     JObj [(''url'', JStr ''http://down.example''),
           (''status'', JNull),
           (''security_headers'', JObj []),
           (''issues'', JArr []),
           (''severity'', JStr ''error''),
           (''error'', JStr ''connection refused''),
           (''response_time_ms'', JNum ''0''),
           (''timestamp'', JStr ''2023-11-14T22:13:19Z'')]"

definition failed_probe_report :: json where
  "failed_probe_report =
     JObj [(''scan_id'', JStr ''scan-1''),
           (''timestamp'', JStr ''2023-11-14T22:13:20Z''),
           (''duration_seconds'', JNum ''1.5''),
           (''total_targets'', JNum ''1''),
           (''results'', JArr [failed_probe])]"

definition stored :: "bytes \<Rightarrow> filesys" where
  "stored b =
     [''./reports/report.json'' \<mapsto>
        \<lparr>data = b, tv_sec = 1700000000, tv_nsec = 0, stat_errno = None, read_errno = None\<rparr>]"

definition unreadable :: "bytes \<Rightarrow> filesys" where
  "unreadable b =
     [''./reports/report.json'' \<mapsto>
        \<lparr>data = b, tv_sec = 1700000000, tv_nsec = 0, stat_errno = None,
         read_errno = Some (''open'', EACCES)\<rparr>]"

definition mistyped_report :: json where
  "mistyped_report = JObj [(''scan_id'', JStr ''scan-2''), (''total_targets'', JStr ''one'')]"

definition twice_results_report :: json where
  "twice_results_report =
     JObj [(''results'', JArr [JObj [(''status'', JNum ''200'')]]),
           (''results'', JArr [JObj [(''status'', JNull)]])]"

section \<open>Properties\<close>

subsection \<open>\<open>countSeverity\<close>\<close>

lemma countSeverity_loop_eq:
  "countSeverity_loop results sev c = c + int (length (filter (\<lambda>r. Severity r = sev) results))"
  by (induction results arbitrary: c) simp_all

lemma four_way_partition:
  "\<forall>r \<in> set results. f r = a \<or> f r = b \<or> f r = c \<or> f r = d \<Longrightarrow>
   a \<noteq> b \<Longrightarrow> a \<noteq> c \<Longrightarrow> a \<noteq> d \<Longrightarrow> b \<noteq> c \<Longrightarrow> b \<noteq> d \<Longrightarrow> c \<noteq> d \<Longrightarrow>
   length (filter (\<lambda>r. f r = a) results) + length (filter (\<lambda>r. f r = b) results)
     + length (filter (\<lambda>r. f r = c) results) + length (filter (\<lambda>r. f r = d) results)
   = length results"
  by (induction results) auto

text \<open>
  C10. For every list of probe results and every severity string, \<open>countSeverity\<close> is the
  number of elements whose severity equals the string; and when every severity of the
  list is one of high, medium, info and error, the four counts add up to the length of
  the list.
\<close>

theorem countSeverity_counts:
  "countSeverity results sev = int (length (filter (\<lambda>r. Severity r = sev) results))
   \<and> ((\<forall>r \<in> set results. Severity r \<in> {''high'', ''medium'', ''info'', ''error''}) \<longrightarrow>
        countSeverity results ''high'' + countSeverity results ''medium''
          + countSeverity results ''info'' + countSeverity results ''error''
        = int (length results))"
proof -
  have count: "\<And>s. countSeverity results s = int (length (filter (\<lambda>r. Severity r = s) results))"
    by (simp add: countSeverity_def countSeverity_loop_eq)
  have "countSeverity results ''high'' + countSeverity results ''medium''
          + countSeverity results ''info'' + countSeverity results ''error''
        = int (length results)"
    if "\<forall>r \<in> set results. Severity r \<in> {''high'', ''medium'', ''info'', ''error''}"
  proof -
    from that have "\<forall>r \<in> set results. Severity r = ''high'' \<or> Severity r = ''medium''
        \<or> Severity r = ''info'' \<or> Severity r = ''error''"
      by simp
    then have "length (filter (\<lambda>r. Severity r = ''high'') results)
        + length (filter (\<lambda>r. Severity r = ''medium'') results)
        + length (filter (\<lambda>r. Severity r = ''info'') results)
        + length (filter (\<lambda>r. Severity r = ''error'') results) = length results"
      by (rule four_way_partition) simp_all
    then show ?thesis
      unfolding count by linarith
  qed
  with count show ?thesis by blast
qed

theorem countSeverity_counts_witness:
  "list_all (\<lambda>r. Severity r \<in> {''high'', ''medium'', ''info'', ''error''})
     [zero_ScanResult\<lparr>Severity := ''high''\<rparr>, zero_ScanResult\<lparr>Severity := ''error''\<rparr>,
      zero_ScanResult\<lparr>Severity := ''high''\<rparr>]
   \<and> countSeverity
     [zero_ScanResult\<lparr>Severity := ''high''\<rparr>, zero_ScanResult\<lparr>Severity := ''error''\<rparr>,
      zero_ScanResult\<lparr>Severity := ''high''\<rparr>] ''high'' = 2
   \<and> countSeverity
     [zero_ScanResult\<lparr>Severity := ''high''\<rparr>, zero_ScanResult\<lparr>Severity := ''error''\<rparr>,
      zero_ScanResult\<lparr>Severity := ''high''\<rparr>] ''high''
     + countSeverity
     [zero_ScanResult\<lparr>Severity := ''high''\<rparr>, zero_ScanResult\<lparr>Severity := ''error''\<rparr>,
      zero_ScanResult\<lparr>Severity := ''high''\<rparr>] ''medium''
     + countSeverity
     [zero_ScanResult\<lparr>Severity := ''high''\<rparr>, zero_ScanResult\<lparr>Severity := ''error''\<rparr>,
      zero_ScanResult\<lparr>Severity := ''high''\<rparr>] ''info''
     + countSeverity
     [zero_ScanResult\<lparr>Severity := ''high''\<rparr>, zero_ScanResult\<lparr>Severity := ''error''\<rparr>,
      zero_ScanResult\<lparr>Severity := ''high''\<rparr>] ''error'' = 3"
  using countSeverity_counts
    [of "[zero_ScanResult\<lparr>Severity := ''high''\<rparr>, zero_ScanResult\<lparr>Severity := ''error''\<rparr>,
          zero_ScanResult\<lparr>Severity := ''high''\<rparr>]" "''high''"]
  by (simp add: zero_ScanResult_def)

subsection \<open>The client registry and the broadcast pass\<close>

lemma send_fails_simps:
  "send_fails (s\<lparr>inbox := i\<rparr>) d = send_fails s d"
  "send_fails (s\<lparr>clients := m\<rparr>) d = send_fails s d"
  "send_fails (log_Print e s) d = send_fails s d"
  "send_fails (Close c s) d = (d = c \<or> send_fails s d)"
  by (auto simp: send_fails_def log_Print_def Close_def)

lemma broadcast_range_effect:
  "distinct order \<Longrightarrow>
   clients (broadcast_range msg order s)
     = fmfilter (\<lambda>d. \<not> (d \<in> set order \<and> send_fails s d)) (clients s)
   \<and> closed (broadcast_range msg order s)
     = closed s \<union> {d \<in> set order. d |\<in>| fmdom (clients s) \<and> send_fails s d}
   \<and> broken (broadcast_range msg order s) = broken s
   \<and> (\<forall>d. inbox (broadcast_range msg order s) d
        = (if d \<in> set order \<and> d |\<in>| fmdom (clients s) \<and> \<not> send_fails s d
           then inbox s d @ [msg] else inbox s d))"
proof (induction order arbitrary: s)
  case Nil
  show ?case by (auto intro: fmap_ext)
next
  case (Cons c cs)
  then have d: "distinct cs" and c: "c \<notin> set cs" by simp_all
  note IH = Cons.IH [OF d]
  consider (absent) "c |\<notin>| fmdom (clients s)"
    | (fails) "c |\<in>| fmdom (clients s)" "send_fails s c"
    | (sent) "c |\<in>| fmdom (clients s)" "\<not> send_fails s c"
    by blast
  then show ?case
  proof cases
    case absent
    then have "broadcast_range msg (c # cs) s = broadcast_range msg cs s" by simp
    moreover have "fmfilter (\<lambda>d. \<not> (d \<in> set cs \<and> send_fails s d)) (clients s)
        = fmfilter (\<lambda>d. \<not> (d \<in> set (c # cs) \<and> send_fails s d)) (clients s)"
      using absent by (intro fmap_ext) (auto simp: fmlookup_dom_iff)
    ultimately show ?thesis using IH [of s] absent by auto
  next
    case fails
    let ?s1 = "Close c ((log_Print LogWriteError s)\<lparr>clients := fmdrop c (clients s)\<rparr>)"
    have step: "broadcast_range msg (c # cs) s = broadcast_range msg cs ?s1"
      using fails by (simp add: WriteMessage_def)
    have sf: "\<And>d. d \<in> set cs \<Longrightarrow> send_fails ?s1 d = send_fails s d"
      using c by (auto simp: send_fails_simps)
    have cl: "clients ?s1 = fmdrop c (clients s)" "closed ?s1 = insert c (closed s)"
      "broken ?s1 = broken s" "inbox ?s1 = inbox s"
      by (simp_all add: Close_def log_Print_def)
    have "fmfilter (\<lambda>d. \<not> (d \<in> set cs \<and> send_fails ?s1 d)) (fmdrop c (clients s))
        = fmfilter (\<lambda>d. \<not> (d \<in> set (c # cs) \<and> send_fails s d)) (clients s)"
      using fails sf by (intro fmap_ext) auto
    moreover have "insert c (closed s) \<union> {d \<in> set cs. d |\<in>| fmdom (fmdrop c (clients s)) \<and> send_fails ?s1 d}
        = closed s \<union> {d \<in> set (c # cs). d |\<in>| fmdom (clients s) \<and> send_fails s d}"
      using fails sf c by auto
    ultimately show ?thesis
      using IH [of ?s1] fails sf c unfolding step cl by auto
  next
    case sent
    let ?s1 = "s\<lparr>inbox := (inbox s)(c := inbox s c @ [msg])\<rparr>"
    have step: "broadcast_range msg (c # cs) s = broadcast_range msg cs ?s1"
      using sent by (simp add: WriteMessage_def)
    have sf: "\<And>d. send_fails ?s1 d = send_fails s d"
      by (simp add: send_fails_simps)
    have cl: "clients ?s1 = clients s" "closed ?s1 = closed s" "broken ?s1 = broken s"
      "inbox ?s1 = (inbox s)(c := inbox s c @ [msg])"
      by simp_all
    have f: "fmfilter (\<lambda>d. \<not> (d \<in> set cs \<and> send_fails s d)) (clients s)
        = fmfilter (\<lambda>d. \<not> (d \<in> set (c # cs) \<and> send_fails s d)) (clients s)"
      using sent by (intro fmap_ext) auto
    have g: "closed s \<union> {d \<in> set cs. d |\<in>| fmdom (clients s) \<and> send_fails s d}
        = closed s \<union> {d \<in> set (c # cs). d |\<in>| fmdom (clients s) \<and> send_fails s d}"
      using sent by auto
    from IH [of ?s1] have
      1: "clients (broadcast_range msg cs ?s1)
        = fmfilter (\<lambda>d. \<not> (d \<in> set cs \<and> send_fails s d)) (clients s)"
      and 2: "closed (broadcast_range msg cs ?s1)
        = closed s \<union> {d \<in> set cs. d |\<in>| fmdom (clients s) \<and> send_fails s d}"
      and 3: "broken (broadcast_range msg cs ?s1) = broken s"
      and 4: "\<And>d. inbox (broadcast_range msg cs ?s1) d
        = (if d \<in> set cs \<and> d |\<in>| fmdom (clients s) \<and> \<not> send_fails s d
           then ((inbox s)(c := inbox s c @ [msg])) d @ [msg]
           else ((inbox s)(c := inbox s c @ [msg])) d)"
      unfolding sf cl by blast+
    have 5: "inbox (broadcast_range msg cs ?s1) d
        = (if d \<in> set (c # cs) \<and> d |\<in>| fmdom (clients s) \<and> \<not> send_fails s d
           then inbox s d @ [msg] else inbox s d)" for d
      unfolding 4 using sent c by auto
    show ?thesis
      unfolding step using 1 2 3 5 f g by presburger
  qed
qed


lemma fcard_pos: "x |\<in>| A \<Longrightarrow> 0 < fcard A"
  by (metis fcard_Suc_fminus1 zero_less_Suc)

text \<open>
  C1. In a broadcast pass over a registry of N clients in which the send to exactly one
  client \<open>c\<close> fails, whatever the order of the pass: \<open>c\<close> is deleted from the registry
  and closed and receives nothing, every other registered client receives the token,
  stays registered and is not closed, and the registry holds N - 1 clients afterwards.
\<close>

theorem broadcast_isolates_failure:
  assumes "range_order order s"
    and "c |\<in>| fmdom (clients s)"
    and "send_fails s c"
    and "\<forall>d. d |\<in>| fmdom (clients s) \<and> d \<noteq> c \<longrightarrow> \<not> send_fails s d"
  shows "clients (broadcast msg order s) = fmdrop c (clients s)
    \<and> c |\<notin>| fmdom (clients (broadcast msg order s))
    \<and> c \<in> closed (broadcast msg order s)
    \<and> inbox (broadcast msg order s) c = inbox s c
    \<and> (\<forall>d. d |\<in>| fmdom (clients s) \<and> d \<noteq> c \<longrightarrow>
          inbox (broadcast msg order s) d = inbox s d @ [msg]
          \<and> d |\<in>| fmdom (clients (broadcast msg order s))
          \<and> (d \<in> closed (broadcast msg order s) \<longleftrightarrow> d \<in> closed s))
    \<and> Suc (len_clients (broadcast msg order s)) = len_clients s"
proof -
  from assms(1) have dist: "distinct order" and keys: "fset_of_list order = fmdom (clients s)"
    by (simp_all add: range_order_def)
  have mem: "d \<in> set order \<longleftrightarrow> d |\<in>| fmdom (clients s)" for d
    using keys by (metis fset_of_list_elem)
  note eff = broadcast_range_effect [OF dist, of msg s]
  have cl: "clients (broadcast msg order s) = fmdrop c (clients s)"
  proof (rule fmap_ext)
    fix d
    show "fmlookup (clients (broadcast msg order s)) d = fmlookup (fmdrop c (clients s)) d"
      using eff assms(2-4) mem [of d] by (auto simp: broadcast_def fmlookup_dom_iff)
  qed
  have closed: "closed (broadcast msg order s) = insert c (closed s)"
    using eff assms(2-4) mem by (auto simp: broadcast_def)
  have inb: "inbox (broadcast msg order s) d
      = (if d |\<in>| fmdom (clients s) \<and> d \<noteq> c then inbox s d @ [msg] else inbox s d)" for d
    using eff assms(2-4) mem [of d] by (auto simp: broadcast_def)
  have nc: "d \<notin> closed s" if "d |\<in>| fmdom (clients s)" "d \<noteq> c" for d
    using that assms(4) by (auto simp: send_fails_def)
  have len: "Suc (len_clients (broadcast msg order s)) = len_clients s"
    using assms(2) fcard_Suc_fminus1 [of c "fmdom (clients s)"]
    by (simp add: len_clients_def cl)
  show ?thesis
    using cl closed inb len nc by auto
qed

theorem broadcast_isolates_failure_witness:
  "range_order [3, 1, 2] scenario_D \<and> send_fails scenario_D 2
   \<and> inbox (broadcast ''reload'' [3, 1, 2] scenario_D) 1 = [''reload'']
   \<and> inbox (broadcast ''reload'' [3, 1, 2] scenario_D) 3 = [''reload'']
   \<and> inbox (broadcast ''reload'' [3, 1, 2] scenario_D) 2 = []
   \<and> 2 \<in> closed (broadcast ''reload'' [3, 1, 2] scenario_D)
   \<and> len_clients scenario_D = 3
   \<and> len_clients (broadcast ''reload'' [3, 1, 2] scenario_D) = 2"
proof -
  have h1: "range_order [3, 1, 2] scenario_D"
    by (auto simp: range_order_def scenario_D_def)
  have h2: "2 |\<in>| fmdom (clients scenario_D)"
    by (simp add: scenario_D_def)
  have h3: "send_fails scenario_D 2"
    by (simp add: send_fails_def scenario_D_def)
  have h4: "\<forall>d. d |\<in>| fmdom (clients scenario_D) \<and> d \<noteq> 2 \<longrightarrow> \<not> send_fails scenario_D d"
    by (auto simp: send_fails_def scenario_D_def)
  have len: "len_clients scenario_D = 3"
    by (simp add: len_clients_def scenario_D_def fcard_finsert_if)
  have i: "inbox scenario_D = (\<lambda>_. [])" "1 |\<in>| fmdom (clients scenario_D)"
    "3 |\<in>| fmdom (clients scenario_D)"
    by (simp_all add: scenario_D_def)
  from broadcast_isolates_failure [OF h1 h2 h3 h4, of "''reload''"] h1 h3 len i
  show ?thesis by simp
qed

text \<open>
  C6. \<open>addClient\<close> is total (it has no failure result) and adds the connection whatever
  the state: afterwards the connection is a key of the registry, and \<open>len(clients)\<close>,
  the count written to the log, counts it.
\<close>

theorem addClient_registers:
  "clients (addClient c s) = fmupd c True (clients s)
   \<and> c |\<in>| fmdom (clients (addClient c s))
   \<and> fmlookup (clients (addClient c s)) c = Some True
   \<and> len_clients (addClient c s)
       = (if c |\<in>| fmdom (clients s) then len_clients s else Suc (len_clients s))
   \<and> 0 < len_clients (addClient c s)
   \<and> logs (addClient c s) = logs s @ [LogConnected (len_clients (addClient c s))]
   \<and> closed (addClient c s) = closed s"
  by (simp add: addClient_def log_Print_def len_clients_def Let_def fcard_finsert_if fcard_pos)

text \<open>
  C5. \<open>removeClient\<close> deletes the connection from the registry when it is there and
  leaves the registry as it is otherwise; doing it twice gives the registry of doing it
  once.
\<close>

theorem removeClient_idempotent:
  "clients (removeClient c (removeClient c s)) = clients (removeClient c s)
   \<and> clients (removeClient c s)
       = (if c |\<in>| fmdom (clients s) then fmdrop c (clients s) else clients s)
   \<and> c |\<notin>| fmdom (clients (removeClient c s))
   \<and> fmdom (clients (removeClient c s)) = fmdom (clients s) |-| {|c|}
   \<and> closed (removeClient c (removeClient c s)) = closed (removeClient c s)"
  by (simp add: removeClient_def log_Print_def Close_def Let_def fmdrop_idle)

subsection \<open>The change watcher\<close>

lemma broadcast_range_mono:
  "fmdom (clients (broadcast_range msg order s)) |\<subseteq>| fmdom (clients s)
   \<and> closed s \<subseteq> closed (broadcast_range msg order s)"
proof (induction order arbitrary: s)
  case Nil
  show ?case by simp
next
  case (Cons c cs)
  show ?case
  proof (cases "c |\<in>| fmdom (clients s)")
    case False
    then show ?thesis using Cons [of s] by simp
  next
    case True
    show ?thesis
    proof (cases "send_fails s c")
      case True
      let ?s1 = "Close c ((log_Print LogWriteError s)\<lparr>clients := fmdrop c (clients s)\<rparr>)"
      have "broadcast_range msg (c # cs) s = broadcast_range msg cs ?s1"
        using True \<open>c |\<in>| fmdom (clients s)\<close> by (simp add: WriteMessage_def)
      moreover have "fmdom (clients ?s1) |\<subseteq>| fmdom (clients s)" "closed s \<subseteq> closed ?s1"
        by (auto simp: Close_def log_Print_def)
      ultimately show ?thesis using Cons [of ?s1] by auto
    next
      case False
      let ?s1 = "s\<lparr>inbox := (inbox s)(c := inbox s c @ [msg])\<rparr>"
      have "broadcast_range msg (c # cs) s = broadcast_range msg cs ?s1"
        using False \<open>c |\<in>| fmdom (clients s)\<close> by (simp add: WriteMessage_def)
      then show ?thesis using Cons [of ?s1] by auto
    qed
  qed
qed

lemma broadcast_range_logs:
  "filter (\<lambda>e. e = LogReportUpdated) (logs (broadcast_range msg order s))
   = filter (\<lambda>e. e = LogReportUpdated) (logs s)"
proof (induction order arbitrary: s)
  case Nil
  show ?case by simp
next
  case (Cons c cs)
  show ?case
    using Cons [of "Close c ((log_Print LogWriteError s)\<lparr>clients := fmdrop c (clients s)\<rparr>)"]
      Cons [of "s\<lparr>inbox := (inbox s)(c := inbox s c @ [msg])\<rparr>"] Cons [of s]
    by (simp add: WriteMessage_def Close_def log_Print_def)
qed


lemma broadcast_effect:
  assumes "range_order order s"
  shows "clients (broadcast msg order s) = fmfilter (\<lambda>d. \<not> send_fails s d) (clients s)"
    and "closed (broadcast msg order s) = closed s \<union> {d. d |\<in>| fmdom (clients s) \<and> send_fails s d}"
    and "inbox (broadcast msg order s) d
      = (if d |\<in>| fmdom (clients s) \<and> \<not> send_fails s d then inbox s d @ [msg] else inbox s d)"
proof -
  from assms have dist: "distinct order" and keys: "fset_of_list order = fmdom (clients s)"
    by (simp_all add: range_order_def)
  have mem: "d \<in> set order \<longleftrightarrow> d |\<in>| fmdom (clients s)" for d
    using keys by (metis fset_of_list_elem)
  note eff = broadcast_range_effect [OF dist, of msg s]
  show "clients (broadcast msg order s) = fmfilter (\<lambda>d. \<not> send_fails s d) (clients s)"
  proof (rule fmap_ext)
    fix d
    show "fmlookup (clients (broadcast msg order s)) d
        = fmlookup (fmfilter (\<lambda>d. \<not> send_fails s d) (clients s)) d"
      using eff mem [of d] by (auto simp: broadcast_def fmlookup_dom_iff)
  qed
  show "closed (broadcast msg order s) = closed s \<union> {d. d |\<in>| fmdom (clients s) \<and> send_fails s d}"
    using eff mem by (auto simp: broadcast_def)
  show "inbox (broadcast msg order s) d
      = (if d |\<in>| fmdom (clients s) \<and> \<not> send_fails s d then inbox s d @ [msg] else inbox s d)"
    using eff mem [of d] by (auto simp: broadcast_def)
qed

lemma range_order_log_Print: "range_order order (log_Print e s) = range_order order s"
  by (simp add: range_order_def log_Print_def)

lemma log_Print_fields:
  "clients (log_Print e s) = clients s" "closed (log_Print e s) = closed s"
  "inbox (log_Print e s) = inbox s" "broken (log_Print e s) = broken s"
  "logs (log_Print e s) = logs s @ [e]"
  by (simp_all add: log_Print_def)

lemma After_irrefl: "t = l \<or> After l t \<Longrightarrow> \<not> After t l"
  by (auto simp: After_def)

lemma watchReport_iter_fired:
  assumes "range_order order s" and "os_Stat fs path = Inr t" and "After t l"
  shows "fst (watchReport_iter fs path order (l, s)) = t"
    and "change_events (snd (watchReport_iter fs path order (l, s))) = Suc (change_events s)"
    and "inbox (snd (watchReport_iter fs path order (l, s))) c
      = (if c |\<in>| fmdom (clients s) \<and> \<not> send_fails s c then inbox s c @ [''reload'']
         else inbox s c)"
    and "clients (snd (watchReport_iter fs path order (l, s)))
      = fmfilter (\<lambda>d. \<not> send_fails s d) (clients s)"
    and "closed (snd (watchReport_iter fs path order (l, s)))
      = closed s \<union> {d. d |\<in>| fmdom (clients s) \<and> send_fails s d}"
proof -
  let ?s1 = "log_Print LogReportUpdated s"
  have it: "watchReport_iter fs path order (l, s) = (t, broadcast ''reload'' order ?s1)"
    using assms(2,3) by (simp add: watchReport_iter_def)
  have ro: "range_order order ?s1"
    using assms(1) by (simp add: range_order_log_Print)
  show "fst (watchReport_iter fs path order (l, s)) = t"
    by (simp add: it)
  show "change_events (snd (watchReport_iter fs path order (l, s))) = Suc (change_events s)"
    by (simp add: it change_events_def broadcast_def broadcast_range_logs log_Print_fields)
  show "inbox (snd (watchReport_iter fs path order (l, s))) c
      = (if c |\<in>| fmdom (clients s) \<and> \<not> send_fails s c then inbox s c @ [''reload'']
         else inbox s c)"
    by (simp add: it broadcast_effect(3) [OF ro] log_Print_fields send_fails_simps)
  show "clients (snd (watchReport_iter fs path order (l, s)))
      = fmfilter (\<lambda>d. \<not> send_fails s d) (clients s)"
    unfolding it snd_conv broadcast_effect(1) [OF ro] log_Print_fields send_fails_simps ..
  show "closed (snd (watchReport_iter fs path order (l, s)))
      = closed s \<union> {d. d |\<in>| fmdom (clients s) \<and> send_fails s d}"
    unfolding it snd_conv broadcast_effect(2) [OF ro] log_Print_fields send_fails_simps ..
qed

text \<open>
  C2, as amended. In one iteration of the watcher, for any order of the broadcast pass: if
  the modification time read by \<open>os.Stat\<close> is after the last-observed marker, the marker
  becomes that time, exactly one change event is signalled, and the token \<open>reload\<close> is
  sent to every registered client: each one whose send does not fail receives exactly
  that token and stays registered, each one whose send fails receives nothing and is
  removed and closed, and no other connection receives anything. If the time is equal to
  the marker or before it, or \<open>os.Stat\<close> fails, nothing changes: no event, no message.
\<close>

theorem watchReport_iter_signals:
  assumes "range_order order s"
  shows "(\<forall>t. os_Stat fs path = Inr t \<and> After t l \<longrightarrow>
            fst (watchReport_iter fs path order (l, s)) = t
          \<and> change_events (snd (watchReport_iter fs path order (l, s))) = Suc (change_events s)
          \<and> (\<forall>c. c |\<in>| fmdom (clients s) \<and> \<not> send_fails s c \<longrightarrow>
                inbox (snd (watchReport_iter fs path order (l, s))) c = inbox s c @ [''reload'']
              \<and> c |\<in>| fmdom (clients (snd (watchReport_iter fs path order (l, s)))))
          \<and> (\<forall>c. c |\<in>| fmdom (clients s) \<and> send_fails s c \<longrightarrow>
                inbox (snd (watchReport_iter fs path order (l, s))) c = inbox s c
              \<and> c |\<notin>| fmdom (clients (snd (watchReport_iter fs path order (l, s))))
              \<and> c \<in> closed (snd (watchReport_iter fs path order (l, s))))
          \<and> (\<forall>c. c |\<notin>| fmdom (clients s) \<longrightarrow>
                inbox (snd (watchReport_iter fs path order (l, s))) c = inbox s c))
    \<and> (\<forall>t. os_Stat fs path = Inr t \<and> (t = l \<or> After l t) \<longrightarrow>
            watchReport_iter fs path order (l, s) = (l, s))
    \<and> (\<forall>e. os_Stat fs path = Inl e \<longrightarrow> watchReport_iter fs path order (l, s) = (l, s))"
proof (intro conjI allI impI)
  fix t
  assume a: "os_Stat fs path = Inr t \<and> After t l"
  note f = watchReport_iter_fired [OF assms, of fs path t l]
  show "fst (watchReport_iter fs path order (l, s)) = t"
    using a f(1) by blast
  show "change_events (snd (watchReport_iter fs path order (l, s))) = Suc (change_events s)"
    using a f(2) by blast
  show "inbox (snd (watchReport_iter fs path order (l, s))) c = inbox s c @ [''reload'']"
    if "c |\<in>| fmdom (clients s) \<and> \<not> send_fails s c" for c
    using a f(3) [of c] that by simp
  show "c |\<in>| fmdom (clients (snd (watchReport_iter fs path order (l, s))))"
    if "c |\<in>| fmdom (clients s) \<and> \<not> send_fails s c" for c
    using a f(4) that by simp
  show "inbox (snd (watchReport_iter fs path order (l, s))) c = inbox s c"
    if "c |\<in>| fmdom (clients s) \<and> send_fails s c" for c
    using a f(3) [of c] that by simp
  show "c |\<notin>| fmdom (clients (snd (watchReport_iter fs path order (l, s))))"
    if "c |\<in>| fmdom (clients s) \<and> send_fails s c" for c
    using a f(4) that by simp
  show "c \<in> closed (snd (watchReport_iter fs path order (l, s)))"
    if "c |\<in>| fmdom (clients s) \<and> send_fails s c" for c
    using a f(5) that by simp
  show "inbox (snd (watchReport_iter fs path order (l, s))) c = inbox s c"
    if "c |\<notin>| fmdom (clients s)" for c
    using a f(3) [of c] that by simp
next
  fix t
  assume "os_Stat fs path = Inr t \<and> (t = l \<or> After l t)"
  then show "watchReport_iter fs path order (l, s) = (l, s)"
    using After_irrefl [of t l] by (auto simp: watchReport_iter_def)
next
  fix e
  assume "os_Stat fs path = Inl e"
  then show "watchReport_iter fs path order (l, s) = (l, s)"
    by (simp add: watchReport_iter_def)
qed

lemma scenario_D_order: "range_order [3, 1, 2] scenario_D"
  by (auto simp: range_order_def scenario_D_def)

lemma sample_stat: "os_Stat sample_fs ''./reports/report.json'' = Inr (Unix 1700000000 0)"
  by (simp add: os_Stat_def sample_fs_def report_file_def)

lemma Unix_sample: "Unix 1700000000 0 = \<lparr>sec = 63835596800, nsec = 0\<rparr>"
  by (simp add: Unix_def unixTime_def unixToInternal_def int64_def)

lemma sample_After: "After (Unix 1700000000 0) zero_Time"
  by (simp add: After_def Unix_sample zero_Time_def)

theorem watchReport_iter_signals_witness:
  "range_order [3, 1, 2] scenario_D
   \<and> os_Stat sample_fs ''./reports/report.json'' = Inr (Unix 1700000000 0)
   \<and> After (Unix 1700000000 0) zero_Time
   \<and> change_events (snd (watchReport_iter sample_fs ''./reports/report.json'' [3, 1, 2]
        (zero_Time, scenario_D))) = 1
   \<and> inbox (snd (watchReport_iter sample_fs ''./reports/report.json'' [3, 1, 2]
        (zero_Time, scenario_D))) 1 = [''reload'']
   \<and> watchReport_iter sample_fs ''./reports/report.json'' [3, 1, 2]
        (Unix 1700000000 0, scenario_D) = (Unix 1700000000 0, scenario_D)
   \<and> watchReport_iter sample_fs ''nowhere'' [3, 1, 2] (zero_Time, scenario_D)
        = (zero_Time, scenario_D)"
proof -
  have h: "1 |\<in>| fmdom (clients scenario_D) \<and> \<not> send_fails scenario_D 1"
    "inbox scenario_D 1 = []" "change_events scenario_D = 0"
    "os_Stat sample_fs ''nowhere'' = Inl (PathError ''stat'' ''nowhere'' ENOENT)"
    by (simp_all add: scenario_D_def send_fails_def change_events_def os_Stat_def sample_fs_def)
  from watchReport_iter_signals [OF scenario_D_order, of sample_fs "''./reports/report.json''" zero_Time]
    watchReport_iter_signals [OF scenario_D_order, of sample_fs "''./reports/report.json''" "Unix 1700000000 0"]
    watchReport_iter_signals [OF scenario_D_order, of sample_fs "''nowhere''" zero_Time]
    scenario_D_order sample_stat sample_After h
  show ?thesis by simp
qed

text \<open>
  C2 as stated fails where it says that the token is delivered to every registered
  client: in scenario D the marker advances, client 2 is registered, and nothing is
  delivered to it.
\<close>

theorem watchReport_delivery_counterexample:
  "range_order [3, 1, 2] scenario_D
   \<and> os_Stat sample_fs ''./reports/report.json'' = Inr (Unix 1700000000 0)
   \<and> After (Unix 1700000000 0) zero_Time
   \<and> 2 |\<in>| fmdom (clients scenario_D)
   \<and> inbox (snd (watchReport_iter sample_fs ''./reports/report.json'' [3, 1, 2]
        (zero_Time, scenario_D))) 2 = []"
proof -
  have "2 |\<in>| fmdom (clients scenario_D)" "send_fails scenario_D 2" "inbox scenario_D 2 = []"
    by (simp_all add: scenario_D_def send_fails_def)
  with watchReport_iter_fired(3) [OF scenario_D_order sample_stat sample_After, of 2]
    scenario_D_order sample_stat sample_After
  show ?thesis by simp
qed

subsection \<open>The gateway and the server\<close>

lemma run_append:
  "run s (es @ es') = (case run s es of None \<Rightarrow> None | Some s' \<Rightarrow> run s' es')"
  by (induction es arbitrary: s) (auto split: option.splits)

lemma addClient_fields:
  "clients (addClient c s) = fmupd c True (clients s)" "closed (addClient c s) = closed s"
  "logs (addClient c s) = logs s @ [LogConnected (len_clients (addClient c s))]"
  by (simp_all add: addClient_def log_Print_def Let_def len_clients_def)

lemma removeClient_fields:
  "clients (removeClient c s) = fmdrop c (clients s)"
  "closed (removeClient c s) = insert c (closed s)"
  "logs (removeClient c s) = logs s @ [LogDisconnected (len_clients (removeClient c s))]"
  by (simp_all add: removeClient_def log_Print_def Close_def Let_def len_clients_def)

lemma watchReport_iter_mono:
  "fmdom (clients (snd (watchReport_iter fs path order (l, s)))) |\<subseteq>| fmdom (clients s)
   \<and> closed s \<subseteq> closed (snd (watchReport_iter fs path order (l, s)))"
  using broadcast_range_mono [of "''reload''" order "log_Print LogReportUpdated s"]
  by (auto simp: watchReport_iter_def broadcast_def log_Print_fields split: sum.splits)

lemma step_allocated:
  assumes "step s e = Some s'" and "allocated s"
  shows "allocated s'"
proof (cases e)
  case (Poll order)
  with assms(1) obtain l w' where
    it: "watchReport_iter (files s) (reportPath s) order (last_seen s, w s) = (l, w')"
    and s': "s' = s\<lparr>w := w', last_seen := l\<rparr>"
    by (auto simp: step_def split: if_splits prod.splits)
  from watchReport_iter_mono [of "files s" "reportPath s" order "last_seen s" "w s"] it
  have "fmdom (clients w') |\<subseteq>| fmdom (clients (w s))" by simp
  with assms(2) show ?thesis
    unfolding allocated_def s' by auto
qed (use assms in \<open>auto simp: step_def allocated_def addClient_fields removeClient_fields
      log_Print_fields less_Suc_eq split: if_splits\<close>)

lemma run_allocated: "run s es = Some s' \<Longrightarrow> allocated s \<Longrightarrow> allocated s'"
  by (induction es arbitrary: s) (auto split: option.splits dest: step_allocated)

lemma allocated_init: "allocated (main_init env fs)"
  by (simp add: allocated_def main_init_def)

lemma step_gone:
  assumes "step s e = Some s'" and "gone c s"
  shows "gone c s'"
proof (cases e)
  case (Poll order)
  with assms(1) obtain l w' where
    it: "watchReport_iter (files s) (reportPath s) order (last_seen s, w s) = (l, w')"
    and s': "s' = s\<lparr>w := w', last_seen := l\<rparr>"
    by (auto simp: step_def split: if_splits prod.splits)
  from watchReport_iter_mono [of "files s" "reportPath s" order "last_seen s" "w s"] it
  have "fmdom (clients w') |\<subseteq>| fmdom (clients (w s))" "closed (w s) \<subseteq> closed w'" by simp_all
  with assms(2) show ?thesis
    unfolding gone_def s' by auto
qed (use assms in \<open>auto simp: step_def gone_def addClient_fields removeClient_fields
      log_Print_fields split: if_splits\<close>)

lemma run_gone: "run s es = Some s' \<Longrightarrow> gone c s \<Longrightarrow> gone c s'"
  by (induction es arbitrary: s) (auto split: option.splits dest: step_gone)

lemma step_removing:
  assumes "step s e = Some s'" and "handlers s c = Some Removing" and "allocated s"
    and "e \<noteq> RemoveClient c"
  shows "handlers s' c = Some Removing"
proof -
  from assms(2,3) have "c < next_conn s"
    by (auto simp: allocated_def)
  then show ?thesis
    using assms(1,2,4) by (cases e) (auto simp: step_def split: if_splits prod.splits)
qed

lemma run_removing:
  "run s es = Some s' \<Longrightarrow> handlers s c = Some Removing \<Longrightarrow> allocated s \<Longrightarrow>
   RemoveClient c \<notin> set es \<Longrightarrow> handlers s' c = Some Removing"
proof (induction es arbitrary: s)
  case Nil
  then show ?case by simp
next
  case (Cons e es)
  from Cons.prems(1) obtain s1 where e: "step s e = Some s1" and r: "run s1 es = Some s'"
    by (auto split: option.splits)
  from Cons.prems(4) have ne: "e \<noteq> RemoveClient c" "RemoveClient c \<notin> set es"
    by auto
  show ?case
    using Cons.IH [OF r step_removing [OF e Cons.prems(2,3) ne(1)] step_allocated
        [OF e Cons.prems(3)] ne(2)] .
qed

text \<open>
  C7. Take any execution of the server from its start in which the read loop of the
  handler of a connection \<open>c\<close> gets a read error, and any later point before the handler
  has called \<open>removeClient\<close>, whatever the other goroutines did meanwhile. There the
  handler reads no more, its call of \<open>removeClient\<close> can happen, and the call leaves \<open>c\<close>
  closed, out of the registry and without a handler. That state is terminal: whatever
  happens afterwards (broadcasts, new handshakes), \<open>c\<close> stays closed, out of the registry
  and without a handler; a handshake registers another connection, never \<open>c\<close>.
\<close>

theorem read_failure_is_terminal:
  assumes "run (main_init env fs) (before @ [ReadError c] @ between) = Some s"
    and "RemoveClient c \<notin> set between"
  shows "step s (ReadMessage c) = None \<and> step s (ReadError c) = None
    \<and> (\<exists>s'. step s (RemoveClient c) = Some s'
          \<and> c |\<notin>| fmdom (clients (w s')) \<and> c \<in> closed (w s') \<and> handlers s' c = None
          \<and> (\<forall>after t. run s' after = Some t \<longrightarrow>
                c |\<notin>| fmdom (clients (w t)) \<and> c \<in> closed (w t) \<and> handlers t c = None
              \<and> step t (ReadMessage c) = None \<and> step t (ReadError c) = None
              \<and> step t (RemoveClient c) = None
              \<and> (\<exists>t'. step t Upgrade = Some t' \<and> next_conn t \<noteq> c
                    \<and> next_conn t |\<in>| fmdom (clients (w t'))
                    \<and> c |\<notin>| fmdom (clients (w t')))))"
proof -
  from assms(1) obtain s1 s2 where
    r1: "run (main_init env fs) before = Some s1"
    and e1: "step s1 (ReadError c) = Some s2"
    and r2: "run s2 between = Some s"
    by (auto simp: run_append split: option.splits)
  have a2: "allocated s2"
    using r1 e1 allocated_init run_allocated step_allocated by blast
  have a: "allocated s"
    using a2 r2 run_allocated by blast
  from e1 have "handlers s2 c = Some Removing"
    by (auto simp: step_def split: if_splits)
  from run_removing [OF r2 this a2 assms(2)] have h: "handlers s c = Some Removing" .
  with a have lt: "c < next_conn s"
    by (auto simp: allocated_def)
  define s' where "s' = s\<lparr>w := removeClient c (w s), handlers := (handlers s)(c := None)\<rparr>"
  have e2: "step s (RemoveClient c) = Some s'"
    using h by (simp add: step_def s'_def)
  have g: "gone c s'"
    using lt by (simp add: gone_def s'_def removeClient_fields)
  have "gone c t" if "run s' after = Some t" for after t
    using that g by (rule run_gone)
  then have later: "\<forall>after t. run s' after = Some t \<longrightarrow>
        c |\<notin>| fmdom (clients (w t)) \<and> c \<in> closed (w t) \<and> handlers t c = None
      \<and> step t (ReadMessage c) = None \<and> step t (ReadError c) = None
      \<and> step t (RemoveClient c) = None
      \<and> (\<exists>t'. step t Upgrade = Some t' \<and> next_conn t \<noteq> c
            \<and> next_conn t |\<in>| fmdom (clients (w t'))
            \<and> c |\<notin>| fmdom (clients (w t')))"
    by (auto simp: gone_def step_def addClient_fields)
  have "step s (ReadMessage c) = None" "step s (ReadError c) = None"
    using h by (simp_all add: step_def)
  moreover have "c |\<notin>| fmdom (clients (w s'))" "c \<in> closed (w s')" "handlers s' c = None"
    using g by (simp_all add: gone_def)
  ultimately show ?thesis
    using e2 later by blast
qed

lemmas eval_defs =
  main_init_def report_path_def step_def addClient_def removeClient_def log_Print_def
  Close_def Let_def range_order_def watchReport_iter_def os_Stat_def sample_fs_def
  report_file_def After_def Unix_def unixTime_def int64_def unixToInternal_def zero_Time_def
  broadcast_def
  WriteMessage_def send_fails_def len_clients_def numeral_2_eq_2

theorem read_failure_is_terminal_witness:
  "\<exists>s t. run (main_init [] sample_fs)
            ([Upgrade, Upgrade] @ [ReadError 0] @ [Poll [1, 0], Drop 0]) = Some s
       \<and> RemoveClient 0 \<notin> set [Poll [1, 0], Drop 0]
       \<and> 0 |\<in>| fmdom (clients (w s))
       \<and> run s ([RemoveClient 0] @ [Upgrade, Poll [2, 1]]) = Some t
       \<and> 0 |\<notin>| fmdom (clients (w t)) \<and> 0 \<in> closed (w t) \<and> handlers t 0 = None
       \<and> step t (ReadMessage 0) = None"
proof -
  have "run (main_init [] sample_fs)
          (([Upgrade, Upgrade] @ [ReadError 0] @ [Poll [1, 0], Drop 0])
            @ ([RemoveClient 0] @ [Upgrade, Poll [2, 1]])) \<noteq> None"
    by (auto simp: eval_defs)
  then obtain s t where r: "run (main_init [] sample_fs)
          ([Upgrade, Upgrade] @ [ReadError 0] @ [Poll [1, 0], Drop 0]) = Some s"
    and rt: "run s ([RemoveClient 0] @ [Upgrade, Poll [2, 1]]) = Some t"
    unfolding run_append [of _ "[Upgrade, Upgrade] @ [ReadError 0] @ [Poll [1, 0], Drop 0]"]
    by (auto split: option.splits)
  have n: "RemoveClient 0 \<notin> set [Poll [1, 0], Drop 0]"
    by simp
  have reg: "0 |\<in>| fmdom (clients (w s))"
    using r by (auto simp: eval_defs)
  from read_failure_is_terminal [OF r n] obtain s' where
    e: "step s (RemoveClient 0) = Some s'"
    and later: "\<And>after t. run s' after = Some t \<Longrightarrow>
        0 |\<notin>| fmdom (clients (w t)) \<and> 0 \<in> closed (w t) \<and> handlers t 0 = None
      \<and> step t (ReadMessage 0) = None"
    by blast
  from rt e have "run s' [Upgrade, Poll [2, 1]] = Some t"
    by simp
  from later [OF this] r n reg rt show ?thesis by blast
qed

lemma change_events_simps:
  "change_events (addClient c s) = change_events s"
  "change_events (removeClient c s) = change_events s"
  "change_events (log_Print LogUpgrade s) = change_events s"
  "change_events (s\<lparr>broken := b\<rparr>) = change_events s"
  by (simp_all add: change_events_def addClient_fields removeClient_fields log_Print_fields)

lemma step_gateway:
  assumes "step s e = Some s'" and "\<not> watcher_or_scanner e"
  shows "last_seen s' = last_seen s \<and> files s' = files s \<and> reportPath s' = reportPath s
    \<and> change_events (w s') = change_events (w s)"
  using assms by (cases e) (auto simp: step_def change_events_simps split: if_splits)

lemma run_gateway:
  "run s es = Some s' \<Longrightarrow> list_all (\<lambda>e. \<not> watcher_or_scanner e) es \<Longrightarrow>
   last_seen s' = last_seen s \<and> files s' = files s \<and> reportPath s' = reportPath s
    \<and> change_events (w s') = change_events (w s)"
proof (induction es arbitrary: s)
  case Nil
  then show ?case by simp
next
  case (Cons e es)
  from Cons.prems(1) obtain s1 where e: "step s e = Some s1" and r: "run s1 es = Some s'"
    by (auto split: option.splits)
  from Cons.prems(2) have "\<not> watcher_or_scanner e" "list_all (\<lambda>e. \<not> watcher_or_scanner e) es"
    by simp_all
  with Cons.IH [OF r] step_gateway [OF e] show ?case by simp
qed

lemma int64_id: "- (2 ^ 63) \<le> x \<Longrightarrow> x < 2 ^ 63 \<Longrightarrow> int64 x = x"
  by (simp add: int64_def)

lemma Unix_in_range:
  assumes "- unixToInternal \<le> s" and "s < 2 ^ 63 - unixToInternal"
    and "0 \<le> n" and "n < 10 ^ 9"
  shows "Unix s n = \<lparr>sec = s + unixToInternal, nsec = n\<rparr>"
proof -
  have "int64 (s + unixToInternal) = s + unixToInternal"
    using assms(1,2) by (intro int64_id) (simp_all add: unixToInternal_def)
  then show ?thesis
    using assms(3,4) by (simp add: Unix_def unixTime_def)
qed

text \<open>
  C9, as amended. The watcher starts with the zero time as last-observed marker. If the
  report file exists when the server starts, \<open>os.Stat\<close> succeeds on it, and its
  modification time is later than the zero time (January 1 of year 1, 62135596800
  seconds before the Unix epoch) and early enough for its seconds since year 1 to fit an
  \<open>int64\<close>, then, whatever the gateway did before (clients connecting and leaving) and
  with no write to the file since the start, the first poll signals a change: it is the
  first change event, the marker becomes the file's time, and \<open>broadcast("reload")\<close> runs
  over the registry, so every registered client whose send does not fail receives the
  token.
\<close>

theorem first_poll_signals:
  assumes "run (main_init env fs) es = Some s"
    and "list_all (\<lambda>e. \<not> watcher_or_scanner e) es"
    and "fs (report_path env) = Some f"
    and "stat_errno f = None"
    and "- unixToInternal < tv_sec f \<or> (tv_sec f = - unixToInternal \<and> 0 < tv_nsec f)"
    and "tv_sec f < 2 ^ 63 - unixToInternal"
    and "0 \<le> tv_nsec f" and "tv_nsec f < 10 ^ 9"
    and "range_order order (w s)"
  shows "\<exists>s'. step s (Poll order) = Some s'
    \<and> last_seen s = zero_Time
    \<and> last_seen s' = \<lparr>sec = tv_sec f + unixToInternal, nsec = tv_nsec f\<rparr>
    \<and> After (last_seen s') (last_seen s)
    \<and> w s' = broadcast ''reload'' order (log_Print LogReportUpdated (w s))
    \<and> change_events (w s) = 0 \<and> change_events (w s') = 1
    \<and> (\<forall>c. c |\<in>| fmdom (clients (w s)) \<and> \<not> send_fails (w s) c \<longrightarrow>
          inbox (w s') c = inbox (w s) c @ [''reload''])"
proof -
  from run_gateway [OF assms(1,2)] have
    l: "last_seen s = zero_Time" and fl: "files s = fs" and p: "reportPath s = report_path env"
    and ce: "change_events (w s) = 0"
    by (simp_all add: main_init_def change_events_def)
  let ?t = "\<lparr>sec = tv_sec f + unixToInternal, nsec = tv_nsec f\<rparr>"
  have "- unixToInternal \<le> tv_sec f"
    using assms(5) by auto
  then have u: "Unix (tv_sec f) (tv_nsec f) = ?t"
    using assms(6-8) by (rule Unix_in_range)
  have st: "os_Stat fs (report_path env) = Inr ?t"
    using assms(3,4) u by (simp add: os_Stat_def)
  have af: "After ?t zero_Time"
    using assms(5) by (auto simp: After_def zero_Time_def)
  have it: "watchReport_iter fs (report_path env) order (zero_Time, w s)
      = (?t, broadcast ''reload'' order (log_Print LogReportUpdated (w s)))"
    using st af by (simp add: watchReport_iter_def)
  define s' where "s' = s\<lparr>w := broadcast ''reload'' order (log_Print LogReportUpdated (w s)),
    last_seen := ?t\<rparr>"
  have e: "step s (Poll order) = Some s'"
    using assms(9) it by (simp add: step_def l fl p s'_def)
  note f = watchReport_iter_fired [OF assms(9) st af]
  have "change_events (w s') = 1"
    using f(2) ce by (simp add: it s'_def)
  moreover have "inbox (w s') c = inbox (w s) c @ [''reload'']"
    if "c |\<in>| fmdom (clients (w s)) \<and> \<not> send_fails (w s) c" for c
    using f(3) [of c] that by (simp add: it s'_def)
  moreover have "After (last_seen s') (last_seen s)"
    using af by (simp add: s'_def l)
  ultimately show ?thesis
    using e l ce by (auto simp: s'_def)
qed

theorem first_poll_signals_witness:
  "\<exists>s s'. run (main_init [] sample_fs) [Upgrade, Upgrade, Drop 1] = Some s
     \<and> list_all (\<lambda>e. \<not> watcher_or_scanner e) [Upgrade, Upgrade, Drop 1]
     \<and> sample_fs (report_path []) = Some report_file
     \<and> stat_errno report_file = None
     \<and> - unixToInternal < tv_sec report_file
     \<and> tv_sec report_file < 2 ^ 63 - unixToInternal
     \<and> 0 \<le> tv_nsec report_file \<and> tv_nsec report_file < 10 ^ 9
     \<and> range_order [1, 0] (w s)
     \<and> step s (Poll [1, 0]) = Some s'
     \<and> change_events (w s') = 1
     \<and> inbox (w s') 0 = [''reload'']"
proof -
  have "run (main_init [] sample_fs) [Upgrade, Upgrade, Drop 1] \<noteq> None"
    by (auto simp: eval_defs)
  then obtain s where r: "run (main_init [] sample_fs)
      [Upgrade, Upgrade, Drop 1] = Some s"
    by blast
  have g: "list_all (\<lambda>e. \<not> watcher_or_scanner e) [Upgrade, Upgrade, Drop 1]"
    by simp
  have f: "sample_fs (report_path []) = Some report_file"
    by (simp add: sample_fs_def report_path_def)
  have se: "stat_errno report_file = None"
    by (simp add: report_file_def)
  have t: "- unixToInternal < tv_sec report_file"
    and t2: "tv_sec report_file < 2 ^ 63 - unixToInternal"
    and n: "0 \<le> tv_nsec report_file" and n2: "tv_nsec report_file < 10 ^ 9"
    by (simp_all add: report_file_def unixToInternal_def)
  have o: "range_order [1, 0] (w s)" and c: "0 |\<in>| fmdom (clients (w s)) \<and> \<not> send_fails (w s) 0"
    and i: "inbox (w s) 0 = []"
    using r by (auto simp: eval_defs)
  from first_poll_signals [OF r g f se disjI1 [OF t] t2 n n2 o] c i r g f se t t2 n n2 o
  show ?thesis
    by auto
qed

text \<open>
  C9 as stated fails. A report file dated the zero time itself exists at the start, and
  the first poll, with a client registered, changes nothing: no change event, no
  message. The same holds for a file dated the first second whose count from year 1 is
  beyond \<open>int64\<close>, which \<open>time.Unix\<close> wraps to a time before the zero time.
\<close>

theorem first_poll_counterexample:
  "dated (- 62135596800) (report_path []) = Some (report_file\<lparr>tv_sec := - 62135596800\<rparr>)
   \<and> os_Stat (dated (- 62135596800)) (report_path []) = Inr zero_Time
   \<and> run (main_init [] (dated (- 62135596800))) [Upgrade] \<noteq> None
   \<and> run (main_init [] (dated (- 62135596800))) [Upgrade, Poll [0]]
       = run (main_init [] (dated (- 62135596800))) [Upgrade]
   \<and> dated 9223371974719179008 (report_path [])
       = Some (report_file\<lparr>tv_sec := 9223371974719179008\<rparr>)
   \<and> os_Stat (dated 9223371974719179008) (report_path [])
       = Inr \<lparr>sec = - 9223372036854775808, nsec = 0\<rparr>
   \<and> run (main_init [] (dated 9223371974719179008)) [Upgrade] \<noteq> None
   \<and> run (main_init [] (dated 9223371974719179008)) [Upgrade, Poll [0]]
       = run (main_init [] (dated 9223371974719179008)) [Upgrade]"
  by (simp add: eval_defs dated_def)

subsection \<open>The on-demand report read\<close>

lemma loadReport_cases:
  "loadReport fl fs path =
     (case os_ReadFile fs path of
        Inl e \<Rightarrow> (None, Some e)
      | Inr b \<Rightarrow>
          (case snd (json_Unmarshal fl b zero_Report) of
             None \<Rightarrow> (Some (fst (json_Unmarshal fl b zero_Report)), None)
           | Some e \<Rightarrow> (None, Some e)))"
  by (simp add: loadReport_def split: sum.splits option.splits prod.splits)

text \<open>
  C3, as amended. \<open>loadReport\<close>, and the handler of \<open>/api/report\<close> after it: when
  \<open>os.ReadFile\<close> gives the bytes of the file and \<open>json.Unmarshal\<close> accepts them, the
  result is the report read and the handler answers 200 with its encoding. When
  \<open>os.ReadFile\<close> fails, the result is a nil pointer and the error of the read; it fails
  when the file does not exist, and also when the file is there and cannot be opened or
  read. When the bytes are rejected, the result is a nil pointer and the decoder's
  error, whatever part of the report the decoder had filled. The handler answers 500
  with that very error. There is an error exactly in these cases, and the pointer is
  nil exactly when there is an error.
\<close>

theorem loadReport_outcomes:
  "(\<forall>b r. os_ReadFile fs path = Inr b \<and> json_Unmarshal fl b zero_Report = (r, None) \<longrightarrow>
        loadReport fl fs path = (Some r, None)
      \<and> api_report fl fs path
          = \<lparr>code = 200, contentType = ''application/json'',
             body = JSON (encode_Report fl r)\<rparr>)
   \<and> (\<forall>e. os_ReadFile fs path = Inl e \<longrightarrow>
        loadReport fl fs path = (None, Some e)
      \<and> api_report fl fs path
          = \<lparr>code = 500, contentType = ''text/plain; charset=utf-8'', body = Text e\<rparr>)
   \<and> (fs path = None \<longrightarrow> os_ReadFile fs path = Inl (PathError ''open'' path ENOENT))
   \<and> (\<forall>f op e. fs path = Some f \<and> read_errno f = Some (op, e) \<longrightarrow>
        os_ReadFile fs path = Inl (PathError op path e))
   \<and> (\<forall>f. fs path = Some f \<and> read_errno f = None \<longrightarrow> os_ReadFile fs path = Inr (data f))
   \<and> (\<forall>b r e. os_ReadFile fs path = Inr b \<and> json_Unmarshal fl b zero_Report = (r, Some e) \<longrightarrow>
        loadReport fl fs path = (None, Some e)
      \<and> api_report fl fs path
          = \<lparr>code = 500, contentType = ''text/plain; charset=utf-8'', body = Text e\<rparr>)
   \<and> (snd (loadReport fl fs path) \<noteq> None \<longleftrightarrow>
        fs path = None
        \<or> (\<exists>f. fs path = Some f \<and> read_errno f \<noteq> None)
        \<or> (\<exists>f. fs path = Some f \<and> read_errno f = None
              \<and> snd (json_Unmarshal fl (data f) zero_Report) \<noteq> None))
   \<and> (fst (loadReport fl fs path) = None \<longleftrightarrow> snd (loadReport fl fs path) \<noteq> None)"
proof (intro conjI allI impI)
  fix b r
  assume a: "os_ReadFile fs path = Inr b \<and> json_Unmarshal fl b zero_Report = (r, None)"
  then show l: "loadReport fl fs path = (Some r, None)"
    by (simp add: loadReport_cases)
  show "api_report fl fs path
      = \<lparr>code = 200, contentType = ''application/json'', body = JSON (encode_Report fl r)\<rparr>"
    by (simp add: api_report_def l)
next
  fix e
  assume a: "os_ReadFile fs path = Inl e"
  then show l: "loadReport fl fs path = (None, Some e)"
    by (simp add: loadReport_cases)
  show "api_report fl fs path
      = \<lparr>code = 500, contentType = ''text/plain; charset=utf-8'', body = Text e\<rparr>"
    by (simp add: api_report_def l)
next
  assume "fs path = None"
  then show "os_ReadFile fs path = Inl (PathError ''open'' path ENOENT)"
    by (simp add: os_ReadFile_def)
next
  fix f op e
  assume "fs path = Some f \<and> read_errno f = Some (op, e)"
  then show "os_ReadFile fs path = Inl (PathError op path e)"
    by (simp add: os_ReadFile_def)
next
  fix f
  assume "fs path = Some f \<and> read_errno f = None"
  then show "os_ReadFile fs path = Inr (data f)"
    by (simp add: os_ReadFile_def)
next
  fix b r e
  assume a: "os_ReadFile fs path = Inr b \<and> json_Unmarshal fl b zero_Report = (r, Some e)"
  then show l: "loadReport fl fs path = (None, Some e)"
    by (simp add: loadReport_cases)
  show "api_report fl fs path
      = \<lparr>code = 500, contentType = ''text/plain; charset=utf-8'', body = Text e\<rparr>"
    by (simp add: api_report_def l)
next
  show "snd (loadReport fl fs path) \<noteq> None \<longleftrightarrow>
      fs path = None
      \<or> (\<exists>f. fs path = Some f \<and> read_errno f \<noteq> None)
      \<or> (\<exists>f. fs path = Some f \<and> read_errno f = None
            \<and> snd (json_Unmarshal fl (data f) zero_Report) \<noteq> None)"
    by (auto simp: loadReport_cases os_ReadFile_def split: option.splits)
  show "fst (loadReport fl fs path) = None \<longleftrightarrow> snd (loadReport fl fs path) \<noteq> None"
    by (auto simp: loadReport_cases split: sum.splits option.splits)
qed

lemma foldName_fields:
  "foldName ''url'' = ''URL''" "foldName ''status'' = ''STATUS''"
  "foldName ''security_headers'' = ''SECURITY_HEADERS''" "foldName ''issues'' = ''ISSUES''"
  "foldName ''severity'' = ''SEVERITY''" "foldName ''error'' = ''ERROR''"
  "foldName ''response_time_ms'' = ''RESPONSE_TIME_MS''"
  "foldName ''timestamp'' = ''TIMESTAMP''" "foldName ''scan_id'' = ''SCAN_ID''"
  "foldName ''duration_seconds'' = ''DURATION_SECONDS''"
  "foldName ''total_targets'' = ''TOTAL_TARGETS''" "foldName ''results'' = ''RESULTS''"
  by code_simp+

lemma set_ScanResult_field_simps:
  "set_ScanResult_field fl ''url'' v r
     = (case decode_string (URL r) v of (x, e) \<Rightarrow> (r\<lparr>URL := x\<rparr>, e))"
  "set_ScanResult_field fl ''status'' v r
     = (case decode_int (Status r) v of (x, e) \<Rightarrow> (r\<lparr>Status := x\<rparr>, e))"
  "set_ScanResult_field fl ''security_headers'' v r
     = (case decode_map fl (SecurityHeaders r) v of (x, e) \<Rightarrow> (r\<lparr>SecurityHeaders := x\<rparr>, e))"
  "set_ScanResult_field fl ''issues'' v r
     = (case decode_strings (Issues r) v of (x, e) \<Rightarrow> (r\<lparr>Issues := x\<rparr>, e))"
  "set_ScanResult_field fl ''severity'' v r
     = (case decode_string (Severity r) v of (x, e) \<Rightarrow> (r\<lparr>Severity := x\<rparr>, e))"
  "set_ScanResult_field fl ''error'' v r
     = (case decode_string (Error r) v of (x, e) \<Rightarrow> (r\<lparr>Error := x\<rparr>, e))"
  "set_ScanResult_field fl ''response_time_ms'' v r
     = (case decode_float64 fl (ResponseTimeMs r) v of
          (x, e) \<Rightarrow> (r\<lparr>ResponseTimeMs := x\<rparr>, e))"
  "set_ScanResult_field fl ''timestamp'' v r
     = (case decode_string (ScanResult.Timestamp r) v of
          (x, e) \<Rightarrow> (r\<lparr>ScanResult.Timestamp := x\<rparr>, e))"
  by (simp_all add: set_ScanResult_field_def matches_def foldName_fields del: foldName.simps)

lemma set_Report_field_simps:
  "set_Report_field fl ''scan_id'' v r
     = (case decode_string (ScanID r) v of (x, e) \<Rightarrow> (r\<lparr>ScanID := x\<rparr>, e))"
  "set_Report_field fl ''timestamp'' v r
     = (case decode_string (Report.Timestamp r) v of (x, e) \<Rightarrow> (r\<lparr>Report.Timestamp := x\<rparr>, e))"
  "set_Report_field fl ''duration_seconds'' v r
     = (case decode_float64 fl (DurationSeconds r) v of
          (x, e) \<Rightarrow> (r\<lparr>DurationSeconds := x\<rparr>, e))"
  "set_Report_field fl ''total_targets'' v r
     = (case decode_int (TotalTargets r) v of (x, e) \<Rightarrow> (r\<lparr>TotalTargets := x\<rparr>, e))"
  "set_Report_field fl ''results'' v r
     = (case decode_results fl (Results r) v of (x, e) \<Rightarrow> (r\<lparr>Results := x\<rparr>, e))"
  by (simp_all add: set_Report_field_def matches_def foldName_fields del: foldName.simps)

lemma number_examples:
  "ParseInt ''0'' = Some 0" "ParseInt ''1'' = Some 1" "ParseInt ''200'' = Some 200"
  "FormatInt 0 = ''0''" "FormatInt 1 = ''1''" "FormatInt 200 = ''200''"
  by code_simp+

lemma strconv_examples:
  "ParseFloat strconv_at_examples ''0'' = Some 0"
  "ParseFloat strconv_at_examples ''1.5'' = Some 0x3FF8000000000000"
  "FormatFloat strconv_at_examples 0 = ''0''"
  "FormatFloat strconv_at_examples 0x3FF8000000000000 = ''1.5''"
  by (simp_all add: strconv_at_examples_def)

lemma decode_scalar_simps:
  "decode_string cur (JStr s) = (s, None)"
  "decode_string cur JNull = (cur, None)"
  "decode_int n JNull = (n, None)"
  "decode_int n (JNum ''1'') = (1, None)"
  "decode_int n (JNum ''200'') = (200, None)"
  "decode_int n (JStr s) = (n, Some (UnmarshalTypeError ''string'' ''int''))"
  "decode_float64 strconv_at_examples x (JNum ''0'') = (0, None)"
  "decode_float64 strconv_at_examples x (JNum ''1.5'') = (0x3FF8000000000000, None)"
  "decode_map fl None (JObj []) = (Some [], None)"
  "decode_strings xs (JArr []) = (Slice [] 0, None)"
  by (simp_all add: decode_string_def decode_int_def decode_float64_def decode_map_def
      decode_strings_def decode_slice_def json_kind_def number_examples strconv_examples)

lemma decode_failed_probe:
  "decode_ScanResult strconv_at_examples zero_ScanResult failed_probe
   = (\<lparr>URL = ''http://down.example'', Status = 0, SecurityHeaders = Some [],
       Issues = Slice [] 0, Severity = ''error'', Error = ''connection refused'',
       ResponseTimeMs = 0, Timestamp = ''2023-11-14T22:13:19Z''\<rparr>, None)"
  by (simp add: failed_probe_def decode_ScanResult_def set_ScanResult_field_simps
      decode_scalar_simps first_err_def zero_ScanResult_def)

lemma Unmarshal_failed_probe:
  "json_Unmarshal strconv_at_examples (JSONText failed_probe_report) zero_Report =
     (\<lparr>ScanID = ''scan-1'', Timestamp = ''2023-11-14T22:13:20Z'',
       DurationSeconds = 0x3FF8000000000000, TotalTargets = 1,
       Results = Slice
         [\<lparr>URL = ''http://down.example'', Status = 0, SecurityHeaders = Some [],
           Issues = Slice [] 0, Severity = ''error'', Error = ''connection refused'',
           ResponseTimeMs = 0, Timestamp = ''2023-11-14T22:13:19Z''\<rparr>] 1\<rparr>, None)"
  by (simp add: failed_probe_report_def json_Unmarshal_def decode_Report_def
      set_Report_field_simps decode_scalar_simps decode_results_def decode_slice_def
      decode_failed_probe first_err_def zero_Report_def)

lemma Unmarshal_mistyped:
  "json_Unmarshal fl (JSONText mistyped_report) zero_Report =
     (\<lparr>ScanID = ''scan-2'', Timestamp = [], DurationSeconds = 0, TotalTargets = 0,
       Results = NilSlice\<rparr>, Some (UnmarshalTypeError ''string'' ''int''))"
  by (simp add: mistyped_report_def json_Unmarshal_def decode_Report_def
      set_Report_field_simps decode_scalar_simps first_err_def zero_Report_def)

lemma stored_path:
  "stored b ''./reports/report.json''
     = Some \<lparr>data = b, tv_sec = 1700000000, tv_nsec = 0, stat_errno = None, read_errno = None\<rparr>"
  "stored b ''./reports/none.json'' = None"
  "unreadable b ''./reports/report.json''
     = Some \<lparr>data = b, tv_sec = 1700000000, tv_nsec = 0, stat_errno = None,
         read_errno = Some (''open'', EACCES)\<rparr>"
  by (simp_all add: stored_def unreadable_def)

lemma ReadFile_examples:
  "os_ReadFile (stored b) ''./reports/report.json'' = Inr b"
  "os_ReadFile (stored b) ''./reports/none.json''
     = Inl (PathError ''open'' ''./reports/none.json'' ENOENT)"
  "os_ReadFile (unreadable b) ''./reports/report.json''
     = Inl (PathError ''open'' ''./reports/report.json'' EACCES)"
  by (simp_all add: os_ReadFile_def stored_path)

theorem loadReport_outcomes_witness:
  "loadReport strconv_at_examples (stored (JSONText failed_probe_report))
       ''./reports/report.json''
     = (Some \<lparr>ScanID = ''scan-1'', Timestamp = ''2023-11-14T22:13:20Z'',
            DurationSeconds = 0x3FF8000000000000, TotalTargets = 1,
            Results = Slice
              [\<lparr>URL = ''http://down.example'', Status = 0, SecurityHeaders = Some [],
                Issues = Slice [] 0, Severity = ''error'', Error = ''connection refused'',
                ResponseTimeMs = 0, Timestamp = ''2023-11-14T22:13:19Z''\<rparr>] 1\<rparr>, None)
   \<and> code (api_report strconv_at_examples (stored (JSONText failed_probe_report))
        ''./reports/report.json'') = 200
   \<and> loadReport strconv_at_examples (stored NotJSON) ''./reports/report.json''
       = (None, Some SyntaxError)
   \<and> ScanID (fst (json_Unmarshal strconv_at_examples (JSONText mistyped_report) zero_Report))
       = ''scan-2''
   \<and> loadReport strconv_at_examples (stored (JSONText mistyped_report))
        ''./reports/report.json''
       = (None, Some (UnmarshalTypeError ''string'' ''int''))
   \<and> api_report strconv_at_examples (stored (JSONText mistyped_report))
        ''./reports/report.json''
       = \<lparr>code = 500, contentType = ''text/plain; charset=utf-8'',
          body = Text (UnmarshalTypeError ''string'' ''int'')\<rparr>
   \<and> loadReport strconv_at_examples (stored NotJSON) ''./reports/none.json''
       = (None, Some (PathError ''open'' ''./reports/none.json'' ENOENT))
   \<and> api_report strconv_at_examples (stored NotJSON) ''./reports/none.json''
       = \<lparr>code = 500, contentType = ''text/plain; charset=utf-8'',
          body = Text (PathError ''open'' ''./reports/none.json'' ENOENT)\<rparr>
   \<and> loadReport strconv_at_examples (unreadable (JSONText failed_probe_report))
        ''./reports/report.json''
       = (None, Some (PathError ''open'' ''./reports/report.json'' EACCES))"
proof -
  let ?p = "''./reports/report.json''"
  let ?fl = strconv_at_examples
  have 1: "os_ReadFile (stored (JSONText failed_probe_report)) ?p
        = Inr (JSONText failed_probe_report)
      \<and> json_Unmarshal ?fl (JSONText failed_probe_report) zero_Report
        = (\<lparr>ScanID = ''scan-1'', Timestamp = ''2023-11-14T22:13:20Z'',
            DurationSeconds = 0x3FF8000000000000, TotalTargets = 1,
            Results = Slice
              [\<lparr>URL = ''http://down.example'', Status = 0, SecurityHeaders = Some [],
                Issues = Slice [] 0, Severity = ''error'', Error = ''connection refused'',
                ResponseTimeMs = 0, Timestamp = ''2023-11-14T22:13:19Z''\<rparr>] 1\<rparr>, None)"
    by (simp add: ReadFile_examples Unmarshal_failed_probe)
  have 2: "os_ReadFile (stored NotJSON) ?p = Inr NotJSON
      \<and> json_Unmarshal ?fl NotJSON zero_Report = (zero_Report, Some SyntaxError)"
    by (simp add: ReadFile_examples json_Unmarshal_def)
  have 3: "os_ReadFile (stored (JSONText mistyped_report)) ?p = Inr (JSONText mistyped_report)
      \<and> json_Unmarshal ?fl (JSONText mistyped_report) zero_Report
        = (\<lparr>ScanID = ''scan-2'', Timestamp = [], DurationSeconds = 0, TotalTargets = 0,
            Results = NilSlice\<rparr>, Some (UnmarshalTypeError ''string'' ''int''))"
    by (simp add: ReadFile_examples Unmarshal_mistyped)
  have 4: "os_ReadFile (stored NotJSON) ''./reports/none.json''
      = Inl (PathError ''open'' ''./reports/none.json'' ENOENT)"
    by (simp add: ReadFile_examples)
  have 5: "os_ReadFile (unreadable (JSONText failed_probe_report)) ?p
      = Inl (PathError ''open'' ?p EACCES)"
    by (simp add: ReadFile_examples)
  note ok = loadReport_outcomes [of "stored (JSONText failed_probe_report)" ?p ?fl,
      THEN conjunct1, rule_format, OF 1]
  note garbled = loadReport_outcomes [of "stored NotJSON" ?p ?fl,
      THEN conjunct2, THEN conjunct2, THEN conjunct2, THEN conjunct2, THEN conjunct2,
      THEN conjunct1, rule_format, OF 2]
  note mistyped = loadReport_outcomes [of "stored (JSONText mistyped_report)" ?p ?fl,
      THEN conjunct2, THEN conjunct2, THEN conjunct2, THEN conjunct2, THEN conjunct2,
      THEN conjunct1, rule_format, OF 3]
  note missing = loadReport_outcomes [of "stored NotJSON" "''./reports/none.json''" ?fl,
      THEN conjunct2, THEN conjunct1, rule_format, OF 4]
  note denied = loadReport_outcomes [of "unreadable (JSONText failed_probe_report)" ?p ?fl,
      THEN conjunct2, THEN conjunct1, rule_format, OF 5]
  have a: "loadReport ?fl (stored (JSONText failed_probe_report)) ?p
      = (Some \<lparr>ScanID = ''scan-1'', Timestamp = ''2023-11-14T22:13:20Z'',
            DurationSeconds = 0x3FF8000000000000, TotalTargets = 1,
            Results = Slice
              [\<lparr>URL = ''http://down.example'', Status = 0, SecurityHeaders = Some [],
                Issues = Slice [] 0, Severity = ''error'', Error = ''connection refused'',
                ResponseTimeMs = 0, Timestamp = ''2023-11-14T22:13:19Z''\<rparr>] 1\<rparr>, None)"
    using ok by (rule conjunct1)
  have b: "code (api_report ?fl (stored (JSONText failed_probe_report)) ?p) = 200"
    using ok [THEN conjunct2] by simp
  have c: "loadReport ?fl (stored NotJSON) ?p = (None, Some SyntaxError)"
    using garbled by (rule conjunct1)
  have d: "ScanID (fst (json_Unmarshal ?fl (JSONText mistyped_report) zero_Report)) = ''scan-2''"
    by (simp add: Unmarshal_mistyped)
  have e: "loadReport ?fl (stored (JSONText mistyped_report)) ?p
      = (None, Some (UnmarshalTypeError ''string'' ''int''))"
    using mistyped by (rule conjunct1)
  have f: "api_report ?fl (stored (JSONText mistyped_report)) ?p
      = \<lparr>code = 500, contentType = ''text/plain; charset=utf-8'',
         body = Text (UnmarshalTypeError ''string'' ''int'')\<rparr>"
    using mistyped by (rule conjunct2)
  have g: "loadReport ?fl (stored NotJSON) ''./reports/none.json''
      = (None, Some (PathError ''open'' ''./reports/none.json'' ENOENT))"
    using missing by (rule conjunct1)
  have h: "api_report ?fl (stored NotJSON) ''./reports/none.json''
      = \<lparr>code = 500, contentType = ''text/plain; charset=utf-8'',
         body = Text (PathError ''open'' ''./reports/none.json'' ENOENT)\<rparr>"
    using missing by (rule conjunct2)
  have i: "loadReport ?fl (unreadable (JSONText failed_probe_report)) ?p
      = (None, Some (PathError ''open'' ?p EACCES))"
    using denied by (rule conjunct1)
  show ?thesis
    by (intro conjI a b c d e f g h i)
qed

text \<open>
  C3 as stated fails where it says that the read fails exactly when the file does not
  exist or its content cannot be parsed: here the file exists and its content is a
  report \<open>json.Unmarshal\<close> accepts, the process may not read it, and \<open>loadReport\<close>
  fails; the handler answers 500 with the error of the read.
\<close>

theorem loadReport_exactly_counterexample:
  "unreadable (JSONText failed_probe_report) ''./reports/report.json''
     = Some \<lparr>data = JSONText failed_probe_report, tv_sec = 1700000000, tv_nsec = 0,
         stat_errno = None, read_errno = Some (''open'', EACCES)\<rparr>
   \<and> snd (json_Unmarshal strconv_at_examples (JSONText failed_probe_report) zero_Report) = None
   \<and> loadReport strconv_at_examples (unreadable (JSONText failed_probe_report))
        ''./reports/report.json''
       = (None, Some (PathError ''open'' ''./reports/report.json'' EACCES))
   \<and> api_report strconv_at_examples (unreadable (JSONText failed_probe_report))
        ''./reports/report.json''
       = \<lparr>code = 500, contentType = ''text/plain; charset=utf-8'',
          body = Text (PathError ''open'' ''./reports/report.json'' EACCES)\<rparr>"
  by (simp add: stored_path Unmarshal_failed_probe loadReport_def api_report_def
      ReadFile_examples)

subsection \<open>The status of a probe result\<close>

lemma set_ScanResult_field_Status:
  "matches k ''status'' \<longrightarrow> v = JNull \<Longrightarrow>
   Status (fst (set_ScanResult_field fl k v r)) = Status r"
  by (auto simp: set_ScanResult_field_def decode_int_def split: prod.splits)

lemma decode_members_Status:
  "\<forall>kv \<in> set kvs. matches (fst kv) ''status'' \<longrightarrow> snd kv = JNull \<Longrightarrow>
   Status (fst (decode_members (set_ScanResult_field fl) kvs acc)) = Status (fst acc)"
proof (induction kvs arbitrary: acc)
  case Nil
  show ?case by simp
next
  case (Cons kv kvs)
  then have kv: "matches (fst kv) ''status'' \<longrightarrow> snd kv = JNull"
    and rest: "\<forall>kv \<in> set kvs. matches (fst kv) ''status'' \<longrightarrow> snd kv = JNull"
    by simp_all
  obtain r e where s: "set_ScanResult_field fl (fst kv) (snd kv) (fst acc) = (r, e)"
    by (cases "set_ScanResult_field fl (fst kv) (snd kv) (fst acc)")
  with set_ScanResult_field_Status [OF kv, of fl "fst acc"] have "Status r = Status (fst acc)"
    by simp
  with Cons.IH [OF rest, of "(r, first_err (snd acc) e)"] s show ?case
    by simp
qed

lemma set_Report_field_other:
  "\<not> matches k ''results'' \<Longrightarrow> Results (fst (set_Report_field fl k v r)) = Results r"
  by (auto simp: set_Report_field_def split: prod.splits)

lemma set_Report_field_results:
  assumes "matches k ''results''"
  shows "Results (fst (set_Report_field fl k v r)) = fst (decode_results fl (Results r) v)"
proof -
  from assms have "foldName k = ''RESULTS''"
    by (simp add: matches_def foldName_fields del: foldName.simps)
  then have "set_Report_field fl k v r
      = (case decode_results fl (Results r) v of (x, e) \<Rightarrow> (r\<lparr>Results := x\<rparr>, e))"
    by (simp add: set_Report_field_def matches_def foldName_fields del: foldName.simps)
  then show ?thesis
    by (simp split: prod.splits)
qed

lemma decode_members_no_results:
  "\<forall>kv \<in> set kvs. \<not> matches (fst kv) ''results'' \<Longrightarrow>
   Results (fst (decode_members (set_Report_field fl) kvs acc)) = Results (fst acc)"
proof (induction kvs arbitrary: acc)
  case Nil
  show ?case by simp
next
  case (Cons kv kvs)
  obtain r e where s: "set_Report_field fl (fst kv) (snd kv) (fst acc) = (r, e)"
    by (cases "set_Report_field fl (fst kv) (snd kv) (fst acc)")
  with set_Report_field_other [of "fst kv" fl "snd kv" "fst acc"] Cons.prems
  have "Results r = Results (fst acc)"
    by simp
  with Cons.IH [of "(r, first_err (snd acc) e)"] Cons.prems s show ?case
    by simp
qed

lemma decode_members_results_once:
  "filter (\<lambda>kv. matches (fst kv) ''results'') kvs = [(k, v)] \<Longrightarrow>
   Results (fst (decode_members (set_Report_field fl) kvs acc))
     = fst (decode_results fl (Results (fst acc)) v)"
proof (induction kvs arbitrary: acc)
  case Nil
  then show ?case by simp
next
  case (Cons kv kvs)
  obtain r e where s: "set_Report_field fl (fst kv) (snd kv) (fst acc) = (r, e)"
    by (cases "set_Report_field fl (fst kv) (snd kv) (fst acc)")
  show ?case
  proof (cases "matches (fst kv) ''results''")
    case True
    with Cons.prems have kv: "kv = (k, v)"
      and none: "filter (\<lambda>kv. matches (fst kv) ''results'') kvs = []"
      by simp_all
    from none have "\<forall>kv \<in> set kvs. \<not> matches (fst kv) ''results''"
      by (simp add: filter_empty_conv)
    from decode_members_no_results [OF this, of fl "(r, first_err (snd acc) e)"]
    have "Results (fst (decode_members (set_Report_field fl) (kv # kvs) acc)) = Results r"
      using s by simp
    also have "Results r = fst (decode_results fl (Results (fst acc)) v)"
      using set_Report_field_results [OF True, of fl "snd kv" "fst acc"] s kv by simp
    finally show ?thesis .
  next
    case False
    with Cons.prems have "filter (\<lambda>kv. matches (fst kv) ''results'') kvs = [(k, v)]"
      by simp
    from Cons.IH [OF this, of "(r, first_err (snd acc) e)"]
      set_Report_field_other [OF False, of fl "snd kv" "fst acc"] s
    show ?thesis by simp
  qed
qed

lemma decode_elems_fresh: "decode_elems dec z [] xs = map (dec z) xs"
  by (induction xs) simp_all

lemma decode_slice_fresh:
  "xs \<noteq> [] \<Longrightarrow>
   fst (decode_slice dec z ty NilSlice (JArr xs)) = Slice (map (\<lambda>x. fst (dec z x)) xs) (length xs)"
  by (simp add: decode_slice_def decode_elems_fresh Let_def)

lemma member_status:
  "member (encode_ScanResult fl sr) ''status'' = Some (JNum (FormatInt (Status sr)))"
  by (simp add: member_def encode_ScanResult_def)

lemma member_results:
  "member (encode_Report fl r) ''results''
     = Some (encode_slice (encode_ScanResult fl) (Results r))"
  by (simp add: member_def encode_Report_def)

lemma FormatInt_0: "FormatInt 0 = ''0''"
  by code_simp

text \<open>
  C8, as amended. \<open>Status\<close> is a Go \<open>int\<close> written without \<open>omitempty\<close>: in every probe
  result of every report the handler of \<open>/api/report\<close> returns, the member \<open>status\<close> is
  present and is an integer in decimal digits. When the stored report is an object that
  names \<open>results\<close> once, a probe result stored there as an object with no status (no
  such member, or \<open>null\<close>, as after a transport failure) is returned with status 0.
\<close>

theorem status_always_present:
  "member (encode_ScanResult fl sr) ''status'' = Some (JNum (FormatInt (Status sr)))
   \<and> (loadReport fl fs path = (Some r, None) \<longrightarrow>
        api_report fl fs path
          = \<lparr>code = 200, contentType = ''application/json'',
             body = JSON (encode_Report fl r)\<rparr>
      \<and> member (encode_Report fl r) ''results''
          = Some (encode_slice (encode_ScanResult fl) (Results r)))
   \<and> (fs path = Some f \<and> read_errno f = None \<and> data f = JSONText (JObj ms)
        \<and> snd (json_Unmarshal fl (data f) zero_Report) = None
        \<and> filter (\<lambda>kv. matches (fst kv) ''results'') ms = [(k, JArr xs)]
        \<and> i < length xs \<and> xs ! i = JObj kvs
        \<and> (\<forall>kv \<in> set kvs. matches (fst kv) ''status'' \<longrightarrow> snd kv = JNull)
      \<longrightarrow> (\<exists>r' ys. loadReport fl fs path = (Some r', None)
             \<and> body (api_report fl fs path) = JSON (encode_Report fl r')
             \<and> member (encode_Report fl r') ''results'' = Some (JArr ys)
             \<and> length ys = length xs
             \<and> Status (elems (Results r') ! i) = 0
             \<and> member (ys ! i) ''status'' = Some (JNum ''0'')))"
proof (intro conjI impI)
  show "member (encode_ScanResult fl sr) ''status'' = Some (JNum (FormatInt (Status sr)))"
    by (rule member_status)
  show "api_report fl fs path
      = \<lparr>code = 200, contentType = ''application/json'', body = JSON (encode_Report fl r)\<rparr>"
    if "loadReport fl fs path = (Some r, None)"
    using that by (simp add: api_report_def)
  show "member (encode_Report fl r) ''results''
      = Some (encode_slice (encode_ScanResult fl) (Results r))"
    by (rule member_results)
next
  assume a: "fs path = Some f \<and> read_errno f = None \<and> data f = JSONText (JObj ms)
      \<and> snd (json_Unmarshal fl (data f) zero_Report) = None
      \<and> filter (\<lambda>kv. matches (fst kv) ''results'') ms = [(k, JArr xs)]
      \<and> i < length xs \<and> xs ! i = JObj kvs
      \<and> (\<forall>kv \<in> set kvs. matches (fst kv) ''status'' \<longrightarrow> snd kv = JNull)"
  then have a1: "fs path = Some f" and a2: "read_errno f = None"
    and a3: "data f = JSONText (JObj ms)"
    and a4: "snd (json_Unmarshal fl (data f) zero_Report) = None"
    and a5: "filter (\<lambda>kv. matches (fst kv) ''results'') ms = [(k, JArr xs)]"
    and a6: "i < length xs" and a7: "xs ! i = JObj kvs"
    and a8: "\<forall>kv \<in> set kvs. matches (fst kv) ''status'' \<longrightarrow> snd kv = JNull"
    by blast+
  define r' where "r' = fst (json_Unmarshal fl (data f) zero_Report)"
  have rd: "os_ReadFile fs path = Inr (data f)"
    using a1 a2 by (simp add: os_ReadFile_def)
  have un: "json_Unmarshal fl (data f) zero_Report = (r', None)"
    using a4 by (simp add: r'_def prod_eq_iff)
  have l: "loadReport fl fs path = (Some r', None)"
    by (simp add: loadReport_def rd un)
  have b: "body (api_report fl fs path) = JSON (encode_Report fl r')"
    by (simp add: api_report_def l)
  from a6 have ne: "xs \<noteq> []"
    by auto
  have "r' = fst (decode_members (set_Report_field fl) ms (zero_Report, None))"
    by (simp add: r'_def a3 json_Unmarshal_def decode_Report_def)
  then have "Results r' = fst (decode_results fl NilSlice (JArr xs))"
    using decode_members_results_once [OF a5, of fl "(zero_Report, None)"]
    by (simp add: zero_Report_def)
  then have res: "Results r'
      = Slice (map (\<lambda>x. fst (decode_ScanResult fl zero_ScanResult x)) xs) (length xs)"
    using decode_slice_fresh [OF ne] by (simp add: decode_results_def)
  define ys where "ys = map (encode_ScanResult fl) (elems (Results r'))"
  have el: "elems (Results r') = map (\<lambda>x. fst (decode_ScanResult fl zero_ScanResult x)) xs"
    by (simp add: res)
  have m: "member (encode_Report fl r') ''results'' = Some (JArr ys)"
    by (simp add: member_results res ys_def)
  have len: "length ys = length xs"
    by (simp add: ys_def el)
  have "elems (Results r') ! i = fst (decode_ScanResult fl zero_ScanResult (JObj kvs))"
    using a6 a7 by (simp add: el)
  moreover have "Status (fst (decode_ScanResult fl zero_ScanResult (JObj kvs))) = 0"
    using decode_members_Status [OF a8, of fl "(zero_ScanResult, None)"]
    by (simp add: decode_ScanResult_def zero_ScanResult_def)
  ultimately have st: "Status (elems (Results r') ! i) = 0"
    by simp
  have "ys ! i = encode_ScanResult fl (elems (Results r') ! i)"
    using a6 by (simp add: ys_def el)
  then have "member (ys ! i) ''status'' = Some (JNum ''0'')"
    by (simp add: member_status st FormatInt_0)
  with l b m len st show "\<exists>r' ys. loadReport fl fs path = (Some r', None)
      \<and> body (api_report fl fs path) = JSON (encode_Report fl r')
      \<and> member (encode_Report fl r') ''results'' = Some (JArr ys)
      \<and> length ys = length xs
      \<and> Status (elems (Results r') ! i) = 0
      \<and> member (ys ! i) ''status'' = Some (JNum ''0'')"
    by blast
qed

lemma encode_failed_probe:
  "encode_Report strconv_at_examples
     \<lparr>ScanID = ''scan-1'', Timestamp = ''2023-11-14T22:13:20Z'',
       DurationSeconds = 0x3FF8000000000000, TotalTargets = 1,
       Results = Slice
         [\<lparr>URL = ''http://down.example'', Status = 0, SecurityHeaders = Some [],
           Issues = Slice [] 0, Severity = ''error'', Error = ''connection refused'',
           ResponseTimeMs = 0, Timestamp = ''2023-11-14T22:13:19Z''\<rparr>] 1\<rparr>
   = JObj [(''scan_id'', JStr ''scan-1''),
           (''timestamp'', JStr ''2023-11-14T22:13:20Z''),
           (''duration_seconds'', JNum ''1.5''),
           (''total_targets'', JNum ''1''),
           (''results'', JArr
              [JObj [(''url'', JStr ''http://down.example''),
                     (''status'', JNum ''0''),
                     (''security_headers'', JObj []),
                     (''issues'', JArr []),
                     (''severity'', JStr ''error''),
                     (''error'', JStr ''connection refused''),
                     (''response_time_ms'', JNum ''0''),
                     (''timestamp'', JStr ''2023-11-14T22:13:19Z'')]])]"
  by (simp add: encode_Report_def encode_ScanResult_def number_examples strconv_examples)

lemma load_failed_probe:
  "loadReport strconv_at_examples (stored (JSONText failed_probe_report))
       ''./reports/report.json''
     = (Some \<lparr>ScanID = ''scan-1'', Timestamp = ''2023-11-14T22:13:20Z'',
            DurationSeconds = 0x3FF8000000000000, TotalTargets = 1,
            Results = Slice
              [\<lparr>URL = ''http://down.example'', Status = 0, SecurityHeaders = Some [],
                Issues = Slice [] 0, Severity = ''error'', Error = ''connection refused'',
                ResponseTimeMs = 0, Timestamp = ''2023-11-14T22:13:19Z''\<rparr>] 1\<rparr>, None)"
  by (simp add: loadReport_def ReadFile_examples Unmarshal_failed_probe)

theorem status_always_present_witness:
  "stored (JSONText failed_probe_report) ''./reports/report.json''
     = Some \<lparr>data = JSONText failed_probe_report, tv_sec = 1700000000, tv_nsec = 0,
         stat_errno = None, read_errno = None\<rparr>
   \<and> snd (json_Unmarshal strconv_at_examples (JSONText failed_probe_report) zero_Report) = None
   \<and> member failed_probe ''status'' = Some JNull
   \<and> (\<exists>r ys. loadReport strconv_at_examples (stored (JSONText failed_probe_report))
                 ''./reports/report.json'' = (Some r, None)
         \<and> body (api_report strconv_at_examples (stored (JSONText failed_probe_report))
                 ''./reports/report.json'') = JSON (encode_Report strconv_at_examples r)
         \<and> member (encode_Report strconv_at_examples r) ''results'' = Some (JArr ys)
         \<and> length ys = 1
         \<and> member (ys ! 0) ''status'' = Some (JNum ''0''))"
proof -
  let ?p = "''./reports/report.json''"
  let ?f = "\<lparr>data = JSONText failed_probe_report, tv_sec = 1700000000, tv_nsec = 0,
    stat_errno = None, read_errno = None\<rparr>"
  let ?ms = "[(''scan_id'', JStr ''scan-1''),
    (''timestamp'', JStr ''2023-11-14T22:13:20Z''),
    (''duration_seconds'', JNum ''1.5''),
    (''total_targets'', JNum ''1''),
    (''results'', JArr [failed_probe])]"
  let ?kvs = "[(''url'', JStr ''http://down.example''),
    (''status'', JNull),
    (''security_headers'', JObj []),
    (''issues'', JArr []),
    (''severity'', JStr ''error''),
    (''error'', JStr ''connection refused''),
    (''response_time_ms'', JNum ''0''),
    (''timestamp'', JStr ''2023-11-14T22:13:19Z'')]"
  have h1: "stored (JSONText failed_probe_report) ?p = Some ?f"
    by (simp add: stored_path)
  have h2: "read_errno ?f = None"
    by simp
  have h3: "data ?f = JSONText (JObj ?ms)"
    by (simp add: failed_probe_report_def)
  have h4: "snd (json_Unmarshal strconv_at_examples (data ?f) zero_Report) = None"
    by (simp add: Unmarshal_failed_probe)
  have h5: "filter (\<lambda>kv. matches (fst kv) ''results'') ?ms = [(''results'', JArr [failed_probe])]"
    by (simp add: matches_def foldName_fields del: foldName.simps)
  have h6: "0 < length [failed_probe]"
    by simp
  have h7: "[failed_probe] ! 0 = JObj ?kvs"
    by (simp add: failed_probe_def)
  have h8: "\<forall>kv \<in> set ?kvs. matches (fst kv) ''status'' \<longrightarrow> snd kv = JNull"
    by (simp add: matches_def foldName_fields del: foldName.simps)
  have h: "stored (JSONText failed_probe_report) ?p = Some ?f \<and> read_errno ?f = None
      \<and> data ?f = JSONText (JObj ?ms)
      \<and> snd (json_Unmarshal strconv_at_examples (data ?f) zero_Report) = None
      \<and> filter (\<lambda>kv. matches (fst kv) ''results'') ?ms = [(''results'', JArr [failed_probe])]
      \<and> 0 < length [failed_probe] \<and> [failed_probe] ! 0 = JObj ?kvs
      \<and> (\<forall>kv \<in> set ?kvs. matches (fst kv) ''status'' \<longrightarrow> snd kv = JNull)"
    using h1 h2 h3 h4 h5 h6 h7 h8 by (intro conjI)
  note t = status_always_present [where fl = strconv_at_examples
      and fs = "stored (JSONText failed_probe_report)" and path = ?p and f = ?f and ms = ?ms
      and k = "''results''" and xs = "[failed_probe]" and i = 0 and kvs = ?kvs,
      THEN conjunct2, THEN conjunct2, rule_format, OF h]
  then obtain r ys where
    "loadReport strconv_at_examples (stored (JSONText failed_probe_report)) ?p = (Some r, None)"
    "body (api_report strconv_at_examples (stored (JSONText failed_probe_report)) ?p)
      = JSON (encode_Report strconv_at_examples r)"
    "member (encode_Report strconv_at_examples r) ''results'' = Some (JArr ys)"
    "length ys = 1" "member (ys ! 0) ''status'' = Some (JNum ''0'')"
    by auto
  moreover have "member failed_probe ''status'' = Some JNull"
    by (simp add: member_def failed_probe_def)
  moreover have "snd (json_Unmarshal strconv_at_examples (JSONText failed_probe_report)
      zero_Report) = None"
    by (simp add: Unmarshal_failed_probe)
  ultimately show ?thesis
    using h1 by blast
qed

text \<open>
  C8 as stated fails: the stored probe result of a transport failure has no status
  (\<open>null\<close>), and the report returned for it has the member \<open>status\<close>, with value 0.
\<close>

theorem status_absent_counterexample:
  "member failed_probe ''status'' = Some JNull
   \<and> member failed_probe ''error'' = Some (JStr ''connection refused'')
   \<and> api_report strconv_at_examples (stored (JSONText failed_probe_report))
       ''./reports/report.json''
     = \<lparr>code = 200, contentType = ''application/json'',
        body = JSON
          (JObj [(''scan_id'', JStr ''scan-1''),
                 (''timestamp'', JStr ''2023-11-14T22:13:20Z''),
                 (''duration_seconds'', JNum ''1.5''),
                 (''total_targets'', JNum ''1''),
                 (''results'', JArr
                    [JObj [(''url'', JStr ''http://down.example''),
                           (''status'', JNum ''0''),
                           (''security_headers'', JObj []),
                           (''issues'', JArr []),
                           (''severity'', JStr ''error''),
                           (''error'', JStr ''connection refused''),
                           (''response_time_ms'', JNum ''0''),
                           (''timestamp'', JStr ''2023-11-14T22:13:19Z'')]])])\<rparr>"
proof -
  have "member failed_probe ''status'' = Some JNull"
    "member failed_probe ''error'' = Some (JStr ''connection refused'')"
    by (simp_all add: member_def failed_probe_def)
  moreover have "api_report strconv_at_examples (stored (JSONText failed_probe_report))
      ''./reports/report.json''
    = \<lparr>code = 200, contentType = ''application/json'',
       body = JSON (encode_Report strconv_at_examples
         \<lparr>ScanID = ''scan-1'', Timestamp = ''2023-11-14T22:13:20Z'',
          DurationSeconds = 0x3FF8000000000000, TotalTargets = 1,
          Results = Slice
            [\<lparr>URL = ''http://down.example'', Status = 0, SecurityHeaders = Some [],
              Issues = Slice [] 0, Severity = ''error'', Error = ''connection refused'',
              ResponseTimeMs = 0, Timestamp = ''2023-11-14T22:13:19Z''\<rparr>] 1\<rparr>)\<rparr>"
    unfolding api_report_def load_failed_probe by (simp only: prod.case option.case)
  ultimately show ?thesis
    unfolding encode_failed_probe by (intro conjI)
qed

text \<open>
  Why the report must name \<open>results\<close> once: where it names it twice, the second array
  is decoded into the elements the first left, and a \<open>null\<close> status keeps the status of
  the element it is decoded into.
\<close>

lemma twice_results_keeps_status:
  "Results (fst (json_Unmarshal fl (JSONText twice_results_report) zero_Report))
     = Slice [zero_ScanResult\<lparr>Status := 200\<rparr>] 1
   \<and> snd (json_Unmarshal fl (JSONText twice_results_report) zero_Report) = None"
  by (simp add: twice_results_report_def json_Unmarshal_def decode_Report_def
      set_Report_field_simps decode_results_def decode_slice_def decode_ScanResult_def
      set_ScanResult_field_simps decode_scalar_simps first_err_def zero_Report_def)

end
